theory Spec2Isabelle
  imports Complex_Main "HOL-Library.Sublist" "HOL-Library.AList"
begin

section \<open>JavaScript numbers\<close>

text \<open>
  A JavaScript number is a double. The model keeps the finite values as reals (rounding
  is not modelled) and the three special values on their own, so that a division by zero
  is a value of the model and not an unspecified real.
\<close>

datatype jsnum = Num real | PosInfinity | NegInfinity | NaN

text \<open>\<open>x / y\<close> on two finite numbers (the zeros of the program are all positive).\<close>

definition js_div :: "real \<Rightarrow> real \<Rightarrow> jsnum" where
  "js_div x y =
     (if y = 0 then (if x = 0 then NaN else if 0 < x then PosInfinity else NegInfinity)
      else Num (x / y))"

text \<open>\<open>x * c\<close> for a finite constant \<open>c\<close>.\<close>

fun js_times :: "jsnum \<Rightarrow> real \<Rightarrow> jsnum" where
  "js_times (Num x) c = Num (x * c)"
| "js_times PosInfinity c = (if c = 0 then NaN else if 0 < c then PosInfinity else NegInfinity)"
| "js_times NegInfinity c = (if c = 0 then NaN else if 0 < c then NegInfinity else PosInfinity)"
| "js_times NaN c = NaN"

section \<open>PerformanceMetrics\<close>

text \<open>
  The counters are incremented by one from zero, so they are natural numbers; response
  times are differences of clock readings in milliseconds. The \<open>gtag\<close> analytics hook is
  not defined by the repository and is taken to be absent.
\<close>

record counters =
  apiCalls :: nat
  cacheHits :: nat
  errors :: nat
  totalResponseTime :: real
  averageResponseTime :: real

record metrics_report = counters +
  cacheHitRate :: jsnum

definition counters_init :: counters where
  "counters_init =
     \<lparr>apiCalls = 0, cacheHits = 0, errors = 0, totalResponseTime = 0, averageResponseTime = 0\<rparr>"

definition recordApiSuccess :: "counters \<Rightarrow> real \<Rightarrow> counters" where
  "recordApiSuccess m responseTime =
     (let m1 = m\<lparr>apiCalls := apiCalls m + 1\<rparr>;
          m2 = m1\<lparr>totalResponseTime := totalResponseTime m1 + responseTime\<rparr>
      in m2\<lparr>averageResponseTime := totalResponseTime m2 / real (apiCalls m2)\<rparr>)"

definition recordCacheHit :: "counters \<Rightarrow> real \<Rightarrow> counters" where
  "recordCacheHit m responseTime = m\<lparr>cacheHits := cacheHits m + 1\<rparr>"

definition recordApiError :: "counters \<Rightarrow> real \<Rightarrow> string \<Rightarrow> counters" where
  "recordApiError m responseTime errorMessage = m\<lparr>errors := errors m + 1\<rparr>"

definition getMetrics :: "counters \<Rightarrow> metrics_report" where
  "getMetrics m =
     counters.extend m
       \<lparr>cacheHitRate =
          js_times (js_div (real (cacheHits m)) (real (apiCalls m + cacheHits m))) 100\<rparr>"

section \<open>The browser: errors, localStorage, JSON, dates, the network\<close>

text \<open>A thrown \<open>Error\<close> object, with its message.\<close>

datatype js_error = Error (message: string)

text \<open>
  \<open>localStorage\<close> is a list of key/value pairs with distinct keys, in the order in which
  \<open>Object.keys\<close> enumerates them. Each access may throw (storage disabled, quota
  exceeded): \<open>ls_throws\<close> says which operations do.
\<close>

type_synonym storage = "(string \<times> string) list"

datatype ls_op = GetItem string | SetItem string string | RemoveItem string | Keys

text \<open>
  What the program takes from the platform. \<open>'r\<close> is the type of the JSON values that
  stand for rate tables. \<open>JSON_parse\<close> is \<open>None\<close> where \<open>JSON.parse\<close> throws;
  \<open>Date_getTime s\<close> is \<open>new Date(s).getTime()\<close>, \<open>None\<close> for NaN (an invalid date);
  \<open>toISOString t\<close> is \<open>new Date(t).toISOString()\<close>.
\<close>

record 'r platform =
  JSON_parse :: "string \<Rightarrow> 'r option"
  JSON_stringify :: "'r \<Rightarrow> string"
  Date_getTime :: "string \<Rightarrow> int option"
  toISOString :: "int \<Rightarrow> string"
  ls_throws :: "ls_op \<Rightarrow> js_error option"

definition getItem :: "'r platform \<Rightarrow> storage \<Rightarrow> string \<Rightarrow> js_error + string option" where
  "getItem env s key =
     (case ls_throws env (GetItem key) of Some e \<Rightarrow> Inl e | None \<Rightarrow> Inr (map_of s key))"

definition setItem :: "'r platform \<Rightarrow> storage \<Rightarrow> string \<Rightarrow> string \<Rightarrow> js_error + storage" where
  "setItem env s key v =
     (case ls_throws env (SetItem key v) of
        Some e \<Rightarrow> Inl e
      | None \<Rightarrow> Inr (AList.update key v s))"

definition removeItem :: "'r platform \<Rightarrow> storage \<Rightarrow> string \<Rightarrow> js_error + storage" where
  "removeItem env s key =
     (case ls_throws env (RemoveItem key) of
        Some e \<Rightarrow> Inl e
      | None \<Rightarrow> Inr (AList.delete key s))"

definition keys :: "'r platform \<Rightarrow> storage \<Rightarrow> js_error + string list" where
  "keys env s = (case ls_throws env Keys of Some e \<Rightarrow> Inl e | None \<Rightarrow> Inr (map fst s))"

text \<open>
  The body of a response as \<open>fetchWithRetry\<close> reads it: \<open>data.rates\<close>,
  \<open>data.conversion_rates\<close> and \<open>data.base\<close>, each \<open>None\<close> when the field is missing
  or falsy.
\<close>

datatype 'r body =
  Body (data_rates: "'r option") (data_conversion_rates: "'r option") (data_base: "string option")

text \<open>
  How one \<open>fetch\<close> settles: rejected (no connection, or aborted by the 10 s timer), or a
  response with \<open>ok\<close>, \<open>status\<close> (as it prints), \<open>statusText\<close> and what
  \<open>response.json()\<close> gives (\<open>Inl\<close> when it rejects or the body is not an object).
\<close>

datatype 'r fetch_outcome =
  Rejected js_error
| Response bool string string "js_error + 'r body"

text \<open>
  The network: how the \<open>k\<close>-th call of the program, to a given URL, settles, and the
  milliseconds it takes.
\<close>

type_synonym 'r network = "nat \<Rightarrow> string \<Rightarrow> 'r fetch_outcome \<times> nat"

section \<open>ExchangeRateAPIService\<close>

text \<open>
  What the program does in time, in order: a network call started at a time in a round
  of \<open>fetchWithRetry\<close>, and an awaited \<open>setTimeout\<close> of some milliseconds.
\<close>

datatype event =
  Fetch nat string int
| Sleep int int

text \<open>
  The service with the world it runs in. \<open>clock\<close> is the time in milliseconds; it
  advances while the program awaits a timer (by the delay asked for) or the network, and
  synchronous code takes no time. \<open>net_calls\<close> and \<open>trace\<close> are not fields of the
  source: they count the network calls and record the events.
\<close>

record 'r world =
  items :: storage
  isOnline :: bool
  metrics :: counters
  lastRequestTime :: int
  fallbackRates :: 'r
  clock :: int
  net_calls :: nat
  trace :: "event list"

definition baseUrl :: string where
  "baseUrl = ''https://api.exchangerate-api.com/v4/latest''"

definition fallbackUrl :: string where
  "fallbackUrl = ''https://open.er-api.com/v6/latest''"

definition cacheKey :: string where
  "cacheKey = ''exchangeRates''"

definition cacheTimestampKey :: string where
  "cacheTimestampKey = ''exchangeRatesTimestamp''"

definition cacheDuration :: int where
  "cacheDuration = 5 * 60 * 1000"

definition minRequestInterval :: int where
  "minRequestInterval = 1000"

text \<open>The two keys of a base currency: \<open>`${this.cacheKey}_${baseCurrency}`\<close> and its twin.\<close>

definition dataKeyOf :: "string \<Rightarrow> string" where
  "dataKeyOf baseCurrency = cacheKey @ ''_'' @ baseCurrency"

definition timestampKeyOf :: "string \<Rightarrow> string" where
  "timestampKeyOf baseCurrency = cacheTimestampKey @ ''_'' @ baseCurrency"

subsection \<open>The cache\<close>

record 'r cached =
  c_rates :: 'r
  c_timestamp :: string
  c_age :: "int option"

text \<open>\<open>now - new Date(timestamp).getTime()\<close>; \<open>None\<close> is NaN.\<close>

definition age_at :: "'r platform \<Rightarrow> int \<Rightarrow> string \<Rightarrow> int option" where
  "age_at env now timestamp = map_option (\<lambda>t. now - t) (Date_getTime env timestamp)"

text \<open>\<open>age < limit\<close> and \<open>age > limit\<close> on a possibly-NaN age: false for NaN.\<close>

definition age_less :: "int option \<Rightarrow> int \<Rightarrow> bool" where
  "age_less age limit = (case age of None \<Rightarrow> False | Some a \<Rightarrow> a < limit)"

definition age_greater :: "int option \<Rightarrow> int \<Rightarrow> bool" where
  "age_greater age limit = (case age of None \<Rightarrow> False | Some a \<Rightarrow> limit < a)"

text \<open>
  \<open>getCachedRates\<close>: every exception of the \<open>try\<close> block (a storage access, \<open>JSON.parse\<close>)
  lands in the \<open>catch\<close>, which returns \<open>null\<close>.
\<close>

definition getCachedRates ::
  "'r platform \<Rightarrow> 'r world \<Rightarrow> string \<Rightarrow> bool \<Rightarrow> 'r cached option" where
  "getCachedRates env w baseCurrency allowStale =
     (case getItem env (items w) (dataKeyOf baseCurrency) of
        Inl e \<Rightarrow> None
      | Inr cachedData \<Rightarrow>
          (case getItem env (items w) (timestampKeyOf baseCurrency) of
             Inl e \<Rightarrow> None
           | Inr cachedTimestamp \<Rightarrow>
               (case (cachedData, cachedTimestamp) of
                  (Some d, Some ts) \<Rightarrow>
                    if d = [] \<or> ts = [] then None
                    else
                      (let age = age_at env (clock w) ts in
                       if allowStale \<or> age_less age cacheDuration then
                         (case JSON_parse env d of
                            None \<Rightarrow> None
                          | Some r \<Rightarrow> Some \<lparr>c_rates = r, c_timestamp = ts, c_age = age\<rparr>)
                       else None)
                | _ \<Rightarrow> None)))"

text \<open>
  The body of the \<open>forEach\<close> of \<open>cleanOldCache\<close>, over the keys enumerated before the
  loop. The result is the storage when the loop ends and the exception that ended it,
  if one did. The key starts with \<open>cacheTimestampKey\<close>, so \<open>key.replace\<close> rewrites that
  prefix.
\<close>

fun sweep :: "'r platform \<Rightarrow> int \<Rightarrow> string list \<Rightarrow> storage \<Rightarrow> storage \<times> js_error option" where
  "sweep env now [] s = (s, None)"
| "sweep env now (key # ks) s =
     (if prefix cacheTimestampKey key then
        (case getItem env s key of
           Inl e \<Rightarrow> (s, Some e)
         | Inr None \<Rightarrow> sweep env now ks s
         | Inr (Some timestamp) \<Rightarrow>
             if timestamp \<noteq> [] \<and> age_greater (age_at env now timestamp) (cacheDuration * 2) then
               (let dataKey = cacheKey @ drop (length cacheTimestampKey) key in
                case removeItem env s key of
                  Inl e \<Rightarrow> (s, Some e)
                | Inr s1 \<Rightarrow>
                    (case removeItem env s1 dataKey of
                       Inl e \<Rightarrow> (s1, Some e)
                     | Inr s2 \<Rightarrow> sweep env now ks s2))
             else sweep env now ks s)
      else sweep env now ks s)"

text \<open>
  What the sweep of \<open>cleanOldCache\<close> tests on the value stored under a timestamp key:
  a non-empty timestamp whose age exceeds twice the time to live.
\<close>

definition expired :: "'r platform \<Rightarrow> int \<Rightarrow> string option \<Rightarrow> bool" where
  "expired env now v =
     (case v of
        None \<Rightarrow> False
      | Some timestamp \<Rightarrow>
          timestamp \<noteq> [] \<and> age_greater (age_at env now timestamp) (cacheDuration * 2))"

text \<open>
  The timestamp keys, among the keys \<open>ks\<close>, that the sweep finds expired in the storage
  \<open>s\<close> at the time \<open>now\<close>.
\<close>

definition expired_keys :: "'r platform \<Rightarrow> int \<Rightarrow> string list \<Rightarrow> storage \<Rightarrow> string set" where
  "expired_keys env now ks s =
     {k \<in> set ks. prefix cacheTimestampKey k \<and> expired env now (map_of s k)}"

definition cleanOldCache :: "'r platform \<Rightarrow> 'r world \<Rightarrow> 'r world" where
  "cleanOldCache env w =
     (case keys env (items w) of
        Inl e \<Rightarrow> w
      | Inr ks \<Rightarrow> w\<lparr>items := fst (sweep env (clock w) ks (items w))\<rparr>)"

definition cacheRates :: "'r platform \<Rightarrow> 'r world \<Rightarrow> string \<Rightarrow> 'r \<Rightarrow> 'r world" where
  "cacheRates env w baseCurrency rs =
     (let timestamp = toISOString env (clock w) in
      case setItem env (items w) (dataKeyOf baseCurrency) (JSON_stringify env rs) of
        Inl e \<Rightarrow> w
      | Inr s1 \<Rightarrow>
          (case setItem env s1 (timestampKeyOf baseCurrency) timestamp of
             Inl e \<Rightarrow> w\<lparr>items := s1\<rparr>
           | Inr s2 \<Rightarrow> cleanOldCache env (w\<lparr>items := s2\<rparr>)))"

text \<open>
  \<open>clearCache\<close> has no \<open>try\<close>: an exception of the storage ends it and reaches the
  caller, with the keys removed so far gone.
\<close>

fun clear_keys :: "'r platform \<Rightarrow> string list \<Rightarrow> storage \<Rightarrow> storage \<times> js_error option" where
  "clear_keys env [] s = (s, None)"
| "clear_keys env (key # ks) s =
     (if prefix cacheKey key \<or> prefix cacheTimestampKey key then
        (case removeItem env s key of
           Inl e \<Rightarrow> (s, Some e)
         | Inr s1 \<Rightarrow> clear_keys env ks s1)
      else clear_keys env ks s)"

definition clearCache :: "'r platform \<Rightarrow> 'r world \<Rightarrow> 'r world \<times> js_error option" where
  "clearCache env w =
     (case keys env (items w) of
        Inl e \<Rightarrow> (w, Some e)
      | Inr ks \<Rightarrow>
          (let (s, thrown) = clear_keys env ks (items w) in (w\<lparr>items := s\<rparr>, thrown)))"

subsection \<open>The fetch pipeline\<close>

record 'r fetched =
  f_rates :: 'r
  f_base :: string

text \<open>
  What \<open>fetchWithRetry\<close> makes of a settled \<open>fetch\<close>: the statements of its inner \<open>try\<close>
  after the \<open>await fetch\<close>. \<open>Inl\<close> is the error the \<open>catch\<close> receives.
\<close>

definition read_response :: "string \<Rightarrow> 'r fetch_outcome \<Rightarrow> js_error + 'r fetched" where
  "read_response baseCurrency outcome =
     (case outcome of
        Rejected e \<Rightarrow> Inl e
      | Response ok status statusText json \<Rightarrow>
          if \<not> ok then Inl (Error (''HTTP '' @ status @ '': '' @ statusText))
          else
            (case json of
               Inl e \<Rightarrow> Inl e
             | Inr (Body r cr b) \<Rightarrow>
                 (case (r, cr) of
                    (None, None) \<Rightarrow> Inl (Error ''Invalid API response format'')
                  | (Some x, _) \<Rightarrow>
                      Inr \<lparr>f_rates = x,
                           f_base = (case b of Some y \<Rightarrow> y | None \<Rightarrow> baseCurrency)\<rparr>
                  | (None, Some x) \<Rightarrow>
                      Inr \<lparr>f_rates = x,
                           f_base = (case b of Some y \<Rightarrow> y | None \<Rightarrow> baseCurrency)\<rparr>)))"

text \<open>\<open>await new Promise(resolve => setTimeout(resolve, ms))\<close>.\<close>

definition sleep :: "'r world \<Rightarrow> int \<Rightarrow> 'r world" where
  "sleep w ms = w\<lparr>trace := trace w @ [Sleep (clock w) ms], clock := clock w + max 0 ms\<rparr>"

text \<open>One pass of the inner \<open>try\<close>: the network call to \<open>url\<close> in round \<open>attempt\<close>.\<close>

definition fetch_attempt ::
  "'r network \<Rightarrow> 'r world \<Rightarrow> nat \<Rightarrow> string \<Rightarrow> string \<Rightarrow> 'r world \<times> (js_error + 'r fetched)" where
  "fetch_attempt net w attempt url baseCurrency =
     (let (outcome, d) = net (net_calls w) url in
      (w\<lparr>trace := trace w @ [Fetch attempt url (clock w)],
         net_calls := Suc (net_calls w),
         clock := clock w + int d\<rparr>,
       read_response baseCurrency outcome))"

text \<open>
  The inner loop \<open>for (const url of urls)\<close> of one round, with its \<open>catch\<close>. The result
  is the world, \<open>lastError\<close> (\<open>None\<close> is \<open>undefined\<close>) and the value returned, if one was.
\<close>

fun try_urls ::
  "'r network \<Rightarrow> string \<Rightarrow> nat \<Rightarrow> nat \<Rightarrow> string list \<Rightarrow> 'r world \<Rightarrow> js_error option
     \<Rightarrow> 'r world \<times> js_error option \<times> 'r fetched option" where
  "try_urls net baseCurrency maxRetries attempt [] w lastError = (w, lastError, None)"
| "try_urls net baseCurrency maxRetries attempt (url # urls) w lastError =
     (case fetch_attempt net w attempt url baseCurrency of
        (w1, Inr result) \<Rightarrow> (w1, lastError, Some result)
      | (w1, Inl e) \<Rightarrow>
          try_urls net baseCurrency maxRetries attempt urls
            (if int attempt < int maxRetries - 1 then sleep w1 (1000 * (int attempt + 1)) else w1)
            (Some e))"

text \<open>
  The outer loop \<open>for (let attempt = 0; attempt < maxRetries; attempt++)\<close> and the final
  \<open>throw lastError\<close>: \<open>Inl\<close> is the value thrown.
\<close>

function fetch_rounds ::
  "'r network \<Rightarrow> string \<Rightarrow> nat \<Rightarrow> string list \<Rightarrow> nat \<Rightarrow> 'r world \<Rightarrow> js_error option
     \<Rightarrow> 'r world \<times> (js_error option + 'r fetched)" where
  "fetch_rounds net baseCurrency maxRetries urls attempt w lastError =
     (if attempt < maxRetries then
        (case try_urls net baseCurrency maxRetries attempt urls w lastError of
           (w1, lastError1, Some result) \<Rightarrow> (w1, Inr result)
         | (w1, lastError1, None) \<Rightarrow>
             fetch_rounds net baseCurrency maxRetries urls (Suc attempt) w1 lastError1)
      else (w, Inl lastError))"
  by pat_completeness auto
termination
  by (relation "measure (\<lambda>(net, baseCurrency, maxRetries, urls, attempt, w, lastError).
        maxRetries - attempt)") auto

declare fetch_rounds.simps [simp del]

definition primaryUrl :: "string \<Rightarrow> string" where
  "primaryUrl baseCurrency = baseUrl @ ''/'' @ baseCurrency"

definition secondaryUrl :: "string \<Rightarrow> string" where
  "secondaryUrl baseCurrency = fallbackUrl @ ''/'' @ baseCurrency"

definition fetchWithRetry ::
  "'r network \<Rightarrow> 'r world \<Rightarrow> string \<Rightarrow> nat \<Rightarrow> 'r world \<times> (js_error option + 'r fetched)" where
  "fetchWithRetry net w baseCurrency maxRetries =
     fetch_rounds net baseCurrency maxRetries
       [primaryUrl baseCurrency, secondaryUrl baseCurrency] 0 w None"

text \<open>
  The pipeline as one loop over its network calls, to compare with the nested loops:
  call \<open>k\<close> goes to the primary endpoint when \<open>k\<close> is even and to the secondary one when
  it is odd, in round \<open>k div 2\<close>; a success is returned at once; a failure becomes the last
  error and, in a round other than the last, is followed by a sleep of
  \<open>1000 * (round + 1)\<close> ms, whichever endpoint failed; when \<open>n\<close>, the number of calls
  left, is zero the last error is thrown.
\<close>

fun flat_pipeline ::
  "'r network \<Rightarrow> string \<Rightarrow> nat \<Rightarrow> nat \<Rightarrow> nat \<Rightarrow> 'r world \<Rightarrow> js_error option
     \<Rightarrow> 'r world \<times> (js_error option + 'r fetched)" where
  "flat_pipeline net baseCurrency maxRetries 0 k w lastError = (w, Inl lastError)"
| "flat_pipeline net baseCurrency maxRetries (Suc n) k w lastError =
     (case fetch_attempt net w (k div 2)
             (if even k then primaryUrl baseCurrency else secondaryUrl baseCurrency)
             baseCurrency of
        (w1, Inr result) \<Rightarrow> (w1, Inr result)
      | (w1, Inl e) \<Rightarrow>
          flat_pipeline net baseCurrency maxRetries n (Suc k)
            (if int (k div 2) < int maxRetries - 1 then sleep w1 (1000 * (int (k div 2) + 1))
             else w1)
            (Some e))"

text \<open>
  What \<open>fetchWithRetry\<close> makes of its \<open>i\<close>-th network call, in a world that has made
  \<open>c\<close> calls before.
\<close>

definition call_result :: "'r network \<Rightarrow> string \<Rightarrow> nat \<Rightarrow> nat \<Rightarrow> js_error + 'r fetched" where
  "call_result net baseCurrency c i =
     read_response baseCurrency
       (fst (net (c + i) (if even i then primaryUrl baseCurrency else secondaryUrl baseCurrency)))"

text \<open>
  The claim that a sleep never stands between two attempts of one round, as a test on a
  trace.
\<close>

fun sleeps_between_rounds_only :: "event list \<Rightarrow> bool" where
  "sleeps_between_rounds_only (Fetch a u t # Sleep t' ms # Fetch a' u' t'' # es) =
     (a \<noteq> a' \<and> sleeps_between_rounds_only (Fetch a' u' t'' # es))"
| "sleeps_between_rounds_only (e # es) = sleeps_between_rounds_only es"
| "sleeps_between_rounds_only [] = True"

text \<open>The starts of the network calls of a trace, each with its round.\<close>

fun fetch_starts :: "event list \<Rightarrow> (nat \<times> int) list" where
  "fetch_starts [] = []"
| "fetch_starts (Fetch a u t # es) = (a, t) # fetch_starts es"
| "fetch_starts (Sleep t ms # es) = fetch_starts es"

text \<open>Successive starts are at least \<open>gap\<close> ms apart.\<close>

fun spaced :: "int \<Rightarrow> (nat \<times> int) list \<Rightarrow> bool" where
  "spaced gap ((a, t) # (a', t') # xs) = (t + gap \<le> t' \<and> spaced gap ((a', t') # xs))"
| "spaced gap xs = True"

text \<open>
  Successive starts are at least the backoff delay apart wherever the earlier call is in
  a round other than the last.
\<close>

fun backoff_spaced :: "nat \<Rightarrow> (nat \<times> int) list \<Rightarrow> bool" where
  "backoff_spaced maxRetries ((a, t) # (a', t') # xs) =
     ((int a < int maxRetries - 1 \<longrightarrow> t + 1000 * (int a + 1) \<le> t') \<and>
      backoff_spaced maxRetries ((a', t') # xs))"
| "backoff_spaced maxRetries xs = True"

subsection \<open>getExchangeRates\<close>

record 'r rates_result =
  success :: bool
  r_rates :: 'r
  r_timestamp :: string
  r_source :: string
  r_warning :: "string option"

text \<open>
  The \<open>catch\<close> block of \<open>getExchangeRates\<close>. It reads \<open>error.message\<close> first: on a thrown
  \<open>undefined\<close> that read throws a TypeError, which leaves the function.
\<close>

definition on_error ::
  "'r platform \<Rightarrow> 'r world \<Rightarrow> string \<Rightarrow> int \<Rightarrow> js_error option
     \<Rightarrow> 'r world \<times> (js_error + 'r rates_result)" where
  "on_error env w baseCurrency startTime thrown =
     (case thrown of
        None \<Rightarrow> (w, Inl (Error ''Cannot read properties of undefined''))
      | Some err \<Rightarrow>
          (let w1 = w\<lparr>metrics :=
                        recordApiError (metrics w) (real_of_int (clock w - startTime)) (message err)\<rparr>
           in case getCachedRates env w1 baseCurrency True of
                Some cachedRates \<Rightarrow>
                  (w1, Inr \<lparr>success = True, r_rates = c_rates cachedRates,
                            r_timestamp = c_timestamp cachedRates,
                            r_source = ''error_fallback_cache'',
                            r_warning = Some ''Last Refreshed Rate''\<rparr>)
              | None \<Rightarrow>
                  (w1, Inr \<lparr>success = True, r_rates = fallbackRates w1,
                            r_timestamp = toISOString env (clock w1),
                            r_source = ''error_fallback_hardcoded'',
                            r_warning = Some ''Last Refreshed Rate''\<rparr>)))"

text \<open>The rate limiting check before the pipeline.\<close>

definition rate_limit :: "'r world \<Rightarrow> 'r world" where
  "rate_limit w =
     (let now = clock w in
      if now - lastRequestTime w < minRequestInterval
      then sleep w (minRequestInterval - (now - lastRequestTime w))
      else w)"

text \<open>
  \<open>getExchangeRates\<close>: \<open>Inr\<close> is the result returned, \<open>Inl\<close> an error that reaches the
  caller. In the \<open>try\<close> block only \<open>fetchWithRetry\<close> throws: \<open>getCachedRates\<close> and
  \<open>cacheRates\<close> catch their own exceptions.
\<close>

definition getExchangeRates ::
  "'r platform \<Rightarrow> 'r network \<Rightarrow> 'r world \<Rightarrow> string \<Rightarrow> bool
     \<Rightarrow> 'r world \<times> (js_error + 'r rates_result)" where
  "getExchangeRates env net w baseCurrency forceRefresh =
     (let startTime = clock w in
      case (if \<not> forceRefresh then getCachedRates env w baseCurrency False else None) of
        Some cachedRates \<Rightarrow>
          (w\<lparr>metrics := recordCacheHit (metrics w) (real_of_int (clock w - startTime))\<rparr>,
           Inr \<lparr>success = True, r_rates = c_rates cachedRates,
                r_timestamp = c_timestamp cachedRates, r_source = ''cache'',
                r_warning = None\<rparr>)
      | None \<Rightarrow>
          if \<not> isOnline w then
            (case getCachedRates env w baseCurrency True of
               Some cachedRates \<Rightarrow>
                 (w, Inr \<lparr>success = True, r_rates = c_rates cachedRates,
                          r_timestamp = c_timestamp cachedRates, r_source = ''offline_cache'',
                          r_warning = Some ''Last Refreshed Rate''\<rparr>)
             | None \<Rightarrow>
                 (w, Inr \<lparr>success = True, r_rates = fallbackRates w,
                          r_timestamp = toISOString env (clock w), r_source = ''fallback'',
                          r_warning = Some ''Last Refreshed Rate''\<rparr>))
          else
            (case fetchWithRetry net (rate_limit w) baseCurrency 3 of
               (w2, Inr result) \<Rightarrow>
                 (let w3 = w2\<lparr>lastRequestTime := clock w2\<rparr>;
                      w4 = cacheRates env w3 baseCurrency (f_rates result);
                      w5 = w4\<lparr>metrics :=
                                 recordApiSuccess (metrics w4) (real_of_int (clock w4 - startTime))\<rparr>
                  in (w5, Inr \<lparr>success = True, r_rates = f_rates result,
                               r_timestamp = toISOString env (clock w5), r_source = ''api'',
                               r_warning = None\<rparr>))
             | (w2, Inl thrown) \<Rightarrow> on_error env w2 baseCurrency startTime thrown))"

text \<open>
  The provenance tags of the specification, and the tag each \<open>source\<close> string of the
  program stands for.
\<close>

datatype provenance =
  Network | Cache | Offline_cache | Static_fallback | Error_cache_fallback | Error_static_fallback

definition provenance_of :: "string \<Rightarrow> provenance option" where
  "provenance_of src =
     (if src = ''api'' then Some Network
      else if src = ''cache'' then Some Cache
      else if src = ''offline_cache'' then Some Offline_cache
      else if src = ''fallback'' then Some Static_fallback
      else if src = ''error_fallback_cache'' then Some Error_cache_fallback
      else if src = ''error_fallback_hardcoded'' then Some Error_static_fallback
      else None)"

text \<open>
  A cache entry of a base currency exists in a storage: both keys hold non-empty strings
  and the data parses.
\<close>

definition entry_exists :: "'r platform \<Rightarrow> storage \<Rightarrow> string \<Rightarrow> bool" where
  "entry_exists env s baseCurrency =
     (case (map_of s (dataKeyOf baseCurrency), map_of s (timestampKeyOf baseCurrency)) of
        (Some d, Some ts) \<Rightarrow> d \<noteq> [] \<and> ts \<noteq> [] \<and> JSON_parse env d \<noteq> None
      | _ \<Rightarrow> False)"

text \<open>The events a run adds to the trace of the world it starts in.\<close>

definition new_events :: "'r world \<Rightarrow> 'r world \<Rightarrow> event list" where
  "new_events w w' = drop (length (trace w)) (trace w')"

text \<open>The \<open>source\<close> strings that \<open>getExchangeRates\<close> writes.\<close>

definition source_tags :: "string list" where
  "source_tags =
     [''api'', ''cache'', ''offline_cache'', ''fallback'', ''error_fallback_cache'',
      ''error_fallback_hardcoded'']"

text \<open>A network on which every call is refused after 5 ms.\<close>

definition failing_net :: "string network" where
  "failing_net = (\<lambda>k url. (Rejected (Error ''Failed to fetch''), 5))"

text \<open>
  A network whose first call is refused after 5 ms and whose later calls answer, after
  120 ms, with a body that has a \<open>rates\<close> field.
\<close>

definition flaky_net :: "string network" where
  "flaky_net =
     (\<lambda>k url.
        if k = 0 then (Rejected (Error ''Failed to fetch''), 5)
        else (Response True ''200'' ''OK'' (Inr (Body (Some ''{EUR:0.9}'') None (Some ''USD''))),
              120))"

subsection \<open>A concrete platform and world\<close>

text \<open>
  A platform to run the service on: a JSON value stands as its own text, the storage
  never throws, and the instants the examples write or read as timestamps have their
  ISO strings (no other instant is asked for there).
\<close>

definition iso_times :: "(int \<times> string) list" where
  "iso_times =
     [(0, ''1970-01-01T00:00:00.000Z''),
      (60000, ''1970-01-01T00:01:00.000Z''),
      (700000, ''1970-01-01T00:11:40.000Z''),
      (701125, ''1970-01-01T00:11:41.125Z'')]"

definition example_env :: "string platform" where
  "example_env =
     \<lparr>JSON_parse = (\<lambda>s. if s = [] then None else Some s),
      JSON_stringify = (\<lambda>r. r),
      Date_getTime = (\<lambda>s. map_of (map (\<lambda>(t, str). (str, t)) iso_times) s),
      toISOString = (\<lambda>t. case map_of iso_times t of Some str \<Rightarrow> str | None \<Rightarrow> ''?''),
      ls_throws = (\<lambda>op. None)\<rparr>"

text \<open>
  A world whose storage holds the rates of USD, cached at time 0, and a key of another
  program; the time is 11 min 40 s.
\<close>

definition example_world :: "string world" where
  "example_world =
     \<lparr>items =
        [(''exchangeRates_USD'', ''{EUR:0.9,GBP:0.8}''),
         (''exchangeRatesTimestamp_USD'', ''1970-01-01T00:00:00.000Z''),
         (''theme'', ''dark'')],
      isOnline = True, metrics = counters_init, lastRequestTime = 0,
      fallbackRates = ''{EUR:0.876,GBP:0.738}'', clock = 700000, net_calls = 0, trace = []\<rparr>"

text \<open>
  The world after a forced refresh of USD that the network answers on its second call.
\<close>

definition after_success :: "string world" where
  "after_success = fst (getExchangeRates example_env flaky_net example_world ''USD'' True)"

section \<open>CurrencyConverter: state and conversion\<close>

text \<open>
  A rate table is a JavaScript object from currency codes to numbers: an association
  list of its own properties. The rates are finite doubles, kept as the reals they
  denote.
\<close>

type_synonym rate_table = "(string \<times> real) list"

record cc_state =
  loading :: bool
  error :: "string option"
  rates :: rate_table
  lastUpdate :: "string option"
  isOffline :: bool
  source :: "string option"

text \<open>
  What \<open>rates[code]\<close> may be: \<open>undefined\<close>, a number, or a property that the table
  inherits from \<open>Object.prototype\<close> (a function, or the prototype object itself), which
  is truthy and is NaN as a number.
\<close>

datatype jsval = Undefined | Number jsnum | Inherited

text \<open>The names of the properties a plain object inherits from \<open>Object.prototype\<close>.\<close>

definition prototype_names :: "string list" where
  "prototype_names =
     [''constructor'', ''toString'', ''toLocaleString'', ''valueOf'', ''hasOwnProperty'',
      ''isPrototypeOf'', ''propertyIsEnumerable'', ''__proto__'', ''__defineGetter__'',
      ''__defineSetter__'', ''__lookupGetter__'', ''__lookupSetter__'']"

text \<open>\<open>rates[code]\<close>: an own property first, then the prototype.\<close>

definition get_property :: "rate_table \<Rightarrow> string \<Rightarrow> jsval" where
  "get_property rs code =
     (case map_of rs code of
        Some r \<Rightarrow> Number (Num r)
      | None \<Rightarrow> if code \<in> set prototype_names then Inherited else Undefined)"

text \<open>\<open>v || 1\<close>: \<open>undefined\<close>, zero and NaN are falsy.\<close>

fun or_one :: "jsval \<Rightarrow> jsval" where
  "or_one Undefined = Number (Num 1)"
| "or_one (Number (Num r)) = (if r = 0 then Number (Num 1) else Number (Num r))"
| "or_one (Number NaN) = Number (Num 1)"
| "or_one v = v"

text \<open>The number an operand of \<open>/\<close> or \<open>*\<close> is taken for.\<close>

fun to_number :: "jsval \<Rightarrow> jsnum" where
  "to_number (Number n) = n"
| "to_number v = NaN"

text \<open>
  \<open>x / y\<close> and \<open>x * y\<close> on doubles. \<open>fl\<close> is the rounding of the platform: it takes
  the exact quotient or product of two finite doubles to the double the operation
  returns, an infinity when the exact value is out of range. The zeros of the program
  are positive.
\<close>

fun js_quot :: "(real \<Rightarrow> jsnum) \<Rightarrow> jsnum \<Rightarrow> jsnum \<Rightarrow> jsnum" where
  "js_quot fl NaN y = NaN"
| "js_quot fl x NaN = NaN"
| "js_quot fl (Num x) (Num y) =
     (if y = 0 then (if x = 0 then NaN else if 0 < x then PosInfinity else NegInfinity)
      else fl (x / y))"
| "js_quot fl (Num x) y = Num 0"
| "js_quot fl PosInfinity (Num y) = (if 0 \<le> y then PosInfinity else NegInfinity)"
| "js_quot fl NegInfinity (Num y) = (if 0 \<le> y then NegInfinity else PosInfinity)"
| "js_quot fl x y = NaN"

fun js_prod :: "(real \<Rightarrow> jsnum) \<Rightarrow> jsnum \<Rightarrow> jsnum \<Rightarrow> jsnum" where
  "js_prod fl NaN y = NaN"
| "js_prod fl x NaN = NaN"
| "js_prod fl (Num x) (Num y) = fl (x * y)"
| "js_prod fl (Num x) PosInfinity =
     (if x = 0 then NaN else if 0 < x then PosInfinity else NegInfinity)"
| "js_prod fl (Num x) NegInfinity =
     (if x = 0 then NaN else if 0 < x then NegInfinity else PosInfinity)"
| "js_prod fl PosInfinity (Num y) =
     (if y = 0 then NaN else if 0 < y then PosInfinity else NegInfinity)"
| "js_prod fl NegInfinity (Num y) =
     (if y = 0 then NaN else if 0 < y then NegInfinity else PosInfinity)"
| "js_prod fl PosInfinity PosInfinity = PosInfinity"
| "js_prod fl NegInfinity NegInfinity = PosInfinity"
| "js_prod fl x y = NegInfinity"

record conversion =
  convertedAmount :: jsnum
  exchangeRate :: jsval
  conv_error :: "string option"
  conv_source :: "string option"
  conv_lastUpdate :: "string option"

text \<open>
  The specification's \<open>rates[code] ?? 1\<close> on a table of numbers: the rate of the code,
  and 1 for a code the table does not have.
\<close>

definition spec_rate :: "rate_table \<Rightarrow> string \<Rightarrow> real" where
  "spec_rate rs code = (case map_of rs code of None \<Rightarrow> 1 | Some r \<Rightarrow> r)"

text \<open>
  A currency code of the specification's data model: three upper-case letters.
\<close>

definition is_currency_code :: "string \<Rightarrow> bool" where
  "is_currency_code code =
     (length code = 3 \<and> (\<forall>ch \<in> set code. ch \<in> set ''ABCDEFGHIJKLMNOPQRSTUVWXYZ''))"

text \<open>
  The first step of \<open>convertCurrency\<close>: with an empty table it awaits
  \<open>fetchRates(fromCurrency)\<close>. That call runs a debounce timer and the rate service; it
  is a parameter here, giving the state the converter holds when the call settles, or
  \<open>None\<close> when the timer is superseded and the promise never settles.
\<close>

definition ensureRates ::
  "(string \<Rightarrow> cc_state \<Rightarrow> cc_state option) \<Rightarrow> cc_state \<Rightarrow> string \<Rightarrow> cc_state option" where
  "ensureRates fetchRates st fromCurrency =
     (if rates st = [] then fetchRates fromCurrency st else Some st)"

text \<open>
  \<open>convertCurrency\<close> returns the state it leaves and its result; \<open>None\<close> is a call
  that never returns. No lookup in a table throws, so the \<open>catch\<close> branch of the source
  is not reached. The amount is a finite double, for which \<open>!amount || amount <= 0\<close> is
  \<open>amount \<le> 0\<close>.
\<close>

definition convertCurrency ::
  "(real \<Rightarrow> jsnum) \<Rightarrow> (string \<Rightarrow> cc_state \<Rightarrow> cc_state option) \<Rightarrow> cc_state \<Rightarrow> real \<Rightarrow> string
     \<Rightarrow> string \<Rightarrow> (cc_state \<times> conversion) option" where
  "convertCurrency fl fetchRates st amount fromCurrency toCurrency =
     (if amount = 0 \<or> amount \<le> 0 then
        Some (st, \<lparr>convertedAmount = Num 0, exchangeRate = Number (Num 0), conv_error = None,
                   conv_source = None, conv_lastUpdate = None\<rparr>)
      else
        (case ensureRates fetchRates st fromCurrency of
           None \<Rightarrow> None
         | Some st' \<Rightarrow>
             (let exchangeRate =
                    (if fromCurrency = ''USD'' then or_one (get_property (rates st') toCurrency)
                     else if toCurrency = ''USD'' then
                       Number (js_quot fl (Num 1)
                         (to_number (or_one (get_property (rates st') fromCurrency))))
                     else (let fromRate = or_one (get_property (rates st') fromCurrency);
                               toRate = or_one (get_property (rates st') toCurrency)
                           in Number (js_quot fl (to_number toRate) (to_number fromRate))));
                  convertedAmount = js_prod fl (Num amount) (to_number exchangeRate)
              in Some (st', \<lparr>convertedAmount = convertedAmount, exchangeRate = exchangeRate,
                              conv_error = None, conv_source = source st',
                              conv_lastUpdate = lastUpdate st'\<rparr>))))"

text \<open>The table of the specification's triangulation example, in a converter state.\<close>

definition example_state :: cc_state where
  "example_state =
     \<lparr>loading = False, error = None, rates = [(''EUR'', 9 / 10), (''GBP'', 8 / 10)],
      lastUpdate = None, isOffline = False, source = Some ''api''\<rparr>"

section \<open>CurrencyConverter: subscribers and setState\<close>

text \<open>
  The argument of \<open>setState\<close>: an object with some of the fields of the state. \<open>None\<close>
  is a field the object does not have.
\<close>

record cc_partial =
  p_loading :: "bool option"
  p_error :: "string option option"
  p_rates :: "rate_table option"
  p_lastUpdate :: "string option option"
  p_isOffline :: "bool option"
  p_source :: "string option option"

text \<open>\<open>{ ...this.state, ...newState }\<close>.\<close>

definition merge_state :: "cc_state \<Rightarrow> cc_partial \<Rightarrow> cc_state" where
  "merge_state st p =
     \<lparr>loading = (case p_loading p of Some v \<Rightarrow> v | None \<Rightarrow> loading st),
      error = (case p_error p of Some v \<Rightarrow> v | None \<Rightarrow> error st),
      rates = (case p_rates p of Some v \<Rightarrow> v | None \<Rightarrow> rates st),
      lastUpdate = (case p_lastUpdate p of Some v \<Rightarrow> v | None \<Rightarrow> lastUpdate st),
      isOffline = (case p_isOffline p of Some v \<Rightarrow> v | None \<Rightarrow> isOffline st),
      source = (case p_source p of Some v \<Rightarrow> v | None \<Rightarrow> source st)\<rparr>"

text \<open>
  A callback is a function object, known by its identity. Called with a state, it acts
  on the converter: it may call \<open>subscribe\<close>, call an unsubscribe function that
  \<open>subscribe\<close> returned, call \<open>setState\<close>, or throw, which ends it.
\<close>

type_synonym callback = nat

datatype action =
  Subscribe callback
| Unsubscribe callback
| SetState cc_partial
| Throw js_error

text \<open>The actions of a callback that returns and leaves the state alone.\<close>

fun quiet :: "action \<Rightarrow> bool" where
  "quiet (Subscribe callback) = True"
| "quiet (Unsubscribe callback) = True"
| "quiet (SetState newState) = False"
| "quiet (Throw e) = False"

text \<open>
  The converter keeps its subscribers in an array object. \<open>subscribe\<close> pushes onto the
  array \<open>this.subscribers\<close> refers to; an unsubscribe function makes a filtered copy and
  points \<open>this.subscribers\<close> to it. So the arrays live in a store, \<open>subscribers\<close> is an
  address, and \<open>next_array\<close> is the next free address. \<open>calls\<close> is not a field of the
  source: it records each call of a callback with the state passed.
\<close>

record converter =
  state :: cc_state
  subscribers :: nat
  arrays :: "nat \<Rightarrow> callback list"
  next_array :: nat
  calls :: "(callback \<times> cc_state) list"

definition subscribe :: "converter \<Rightarrow> callback \<Rightarrow> converter" where
  "subscribe c callback =
     c\<lparr>arrays := (arrays c)(subscribers c := arrays c (subscribers c) @ [callback])\<rparr>"

definition unsubscribe :: "converter \<Rightarrow> callback \<Rightarrow> converter" where
  "unsubscribe c callback =
     c\<lparr>arrays := (arrays c)(next_array c :=
                     filter (\<lambda>sub. sub \<noteq> callback) (arrays c (subscribers c))),
       subscribers := next_array c,
       next_array := Suc (next_array c)\<rparr>"

text \<open>
  \<open>setState\<close>, the \<open>forEach\<close> over the subscribers, and the body of a callback, each
  with the converter it leaves and the exception that ended it, if one did: the source
  has no \<open>try\<close>, so an exception of a callback ends \<open>forEach\<close> and \<open>setState\<close>.

  \<open>run_actions\<close> runs what a callback does. \<open>notify\<close> is
  \<open>array.forEach(callback => callback(this.state))\<close> on the array at address \<open>a\<close>: the
  indices \<open>k\<close>, \<open>k + 1\<close>, ... up to the length the array had when \<open>forEach\<close> began (\<open>n\<close>
  indices are left), reading the array and \<open>this.state\<close> at each step. \<open>depth\<close> is the
  number of nested calls of \<open>setState\<close> the stack has room for; beyond it the call
  throws a RangeError.
\<close>

function
  run_actions ::
    "nat \<Rightarrow> (callback \<Rightarrow> cc_state \<Rightarrow> action list) \<Rightarrow> converter \<Rightarrow> action list
       \<Rightarrow> converter \<times> js_error option"
  and notify ::
    "nat \<Rightarrow> (callback \<Rightarrow> cc_state \<Rightarrow> action list) \<Rightarrow> nat \<Rightarrow> nat \<Rightarrow> nat \<Rightarrow> converter
       \<Rightarrow> converter \<times> js_error option"
  and setState ::
    "nat \<Rightarrow> (callback \<Rightarrow> cc_state \<Rightarrow> action list) \<Rightarrow> converter \<Rightarrow> cc_partial
       \<Rightarrow> converter \<times> js_error option"
where
  "run_actions depth behaviour c [] = (c, None)"
| "run_actions depth behaviour c (Subscribe callback # acts) =
     run_actions depth behaviour (subscribe c callback) acts"
| "run_actions depth behaviour c (Unsubscribe callback # acts) =
     run_actions depth behaviour (unsubscribe c callback) acts"
| "run_actions depth behaviour c (Throw e # acts) = (c, Some e)"
| "run_actions depth behaviour c (SetState newState # acts) =
     (case setState depth behaviour c newState of
        (c1, Some e) \<Rightarrow> (c1, Some e)
      | (c1, None) \<Rightarrow> run_actions depth behaviour c1 acts)"
| "notify depth behaviour a k 0 c = (c, None)"
| "notify depth behaviour a k (Suc n) c =
     (if k < length (arrays c a) then
        (let callback = arrays c a ! k;
             c1 = c\<lparr>calls := calls c @ [(callback, state c)]\<rparr>
         in case run_actions depth behaviour c1 (behaviour callback (state c)) of
              (c2, Some e) \<Rightarrow> (c2, Some e)
            | (c2, None) \<Rightarrow> notify depth behaviour a (Suc k) n c2)
      else notify depth behaviour a (Suc k) n c)"
| "setState 0 behaviour c newState = (c, Some (Error ''Maximum call stack size exceeded''))"
| "setState (Suc depth) behaviour c newState =
     (let c1 = c\<lparr>state := merge_state (state c) newState\<rparr>
      in notify depth behaviour (subscribers c1) 0 (length (arrays c1 (subscribers c1))) c1)"
  by pat_completeness auto
termination
  by (relation "inv_image (less_than <*lex*> less_than <*lex*> less_than)
        (\<lambda>x. case x of
           Inl (depth, behaviour, c, acts) \<Rightarrow> (depth, 1::nat, length acts)
         | Inr (Inl (depth, behaviour, a, k, n, c)) \<Rightarrow> (depth, 2, n)
         | Inr (Inr (depth, behaviour, c, newState)) \<Rightarrow> (depth, 0, 0))")
    auto

text \<open>
  A converter after the callbacks 1, 2 and 3 have subscribed in this order, and an
  update of the loading flag. In \<open>example_behaviour\<close> callback 1, when called, unsubscribes
  callback 2 and itself. In \<open>throwing_behaviour\<close> callback 1 throws. In
  \<open>reentrant_behaviour\<close> callback 1, called with a loading state, calls \<open>setState\<close> to
  end the loading.
\<close>

definition empty_converter :: converter where
  "empty_converter =
     \<lparr>state = example_state, subscribers = 0, arrays = (\<lambda>a. []), next_array = 1, calls = []\<rparr>"

definition example_converter :: converter where
  "example_converter = foldl subscribe empty_converter [1, 2, 3]"

definition set_loading :: cc_partial where
  "set_loading =
     \<lparr>p_loading = Some True, p_error = Some None, p_rates = None, p_lastUpdate = None,
      p_isOffline = None, p_source = None\<rparr>"

definition end_loading :: cc_partial where
  "end_loading =
     \<lparr>p_loading = Some False, p_error = None, p_rates = None, p_lastUpdate = None,
      p_isOffline = None, p_source = None\<rparr>"

definition example_behaviour :: "callback \<Rightarrow> cc_state \<Rightarrow> action list" where
  "example_behaviour callback st = (if callback = 1 then [Unsubscribe 2, Unsubscribe 1] else [])"

definition throwing_behaviour :: "callback \<Rightarrow> cc_state \<Rightarrow> action list" where
  "throwing_behaviour callback st =
     (if callback = 1 then [Throw (Error ''element is null'')] else [])"

definition reentrant_behaviour :: "callback \<Rightarrow> cc_state \<Rightarrow> action list" where
  "reentrant_behaviour callback st =
     (if callback = 1 \<and> loading st then [SetState end_loading] else [])"

section \<open>Properties of the metrics\<close>

text \<open>
  Claim C10. \<open>getMetrics\<close> divides \<open>cacheHits\<close> by \<open>apiCalls + cacheHits\<close> with no guard:
  when both counters are zero the quotient is 0/0 and \<open>cacheHitRate\<close> is NaN; in every
  other state of the counters the divisor is positive and the rate is the finite number
  \<open>cacheHits / (apiCalls + cacheHits) * 100\<close>.
\<close>

theorem getMetrics_cacheHitRate:
  "cacheHitRate (getMetrics m) =
     (if apiCalls m = 0 \<and> cacheHits m = 0 then NaN
      else Num (real (cacheHits m) / real (apiCalls m + cacheHits m) * 100))"
  by (simp add: getMetrics_def js_div_def counters.extend_def)

section \<open>Properties of the conversion\<close>

lemma currency_code_not_inherited:
  assumes "is_currency_code code"
  shows "code \<notin> set prototype_names"
proof -
  have "\<forall>name \<in> set prototype_names. length name \<noteq> 3"
    by (simp add: prototype_names_def)
  moreover from assms have "length code = 3"
    by (simp add: is_currency_code_def)
  ultimately show ?thesis by blast
qed

lemma or_one_get_property:
  assumes "\<forall>(c, r) \<in> set rs. 0 < r" and "is_currency_code code"
  shows "or_one (get_property rs code) = Number (Num (spec_rate rs code))"
    and "0 < spec_rate rs code"
proof -
  note ni = currency_code_not_inherited [OF assms(2)]
  show "or_one (get_property rs code) = Number (Num (spec_rate rs code))"
  proof (cases "map_of rs code")
    case None
    with ni show ?thesis by (simp add: get_property_def spec_rate_def)
  next
    case (Some r)
    then have "(code, r) \<in> set rs" by (rule map_of_SomeD)
    with assms(1) have "0 < r" by auto
    with Some show ?thesis by (simp add: get_property_def spec_rate_def)
  qed
  show "0 < spec_rate rs code"
  proof (cases "map_of rs code")
    case None
    then show ?thesis by (simp add: spec_rate_def)
  next
    case (Some r)
    then have "(code, r) \<in> set rs" by (rule map_of_SomeD)
    with assms(1) have "0 < r" by auto
    with Some show ?thesis by (simp add: spec_rate_def)
  qed
qed

lemma ensureRates_nonempty:
  "rates st \<noteq> [] \<Longrightarrow> ensureRates fetchRates st fromCurrency = Some st"
  by (simp add: ensureRates_def)

text \<open>
  Claim C7. For a positive amount, a non-empty table of positive rates held by the
  converter, and two currency codes neither of which is the base (the base of
  \<open>convertCurrency\<close> is the literal USD), the conversion triangulates over that table:
  \<open>exchangeRate\<close> is the double quotient \<open>(rates[to] ?? 1) / (rates[from] ?? 1)\<close> and
  \<open>convertedAmount\<close> is the double product of the amount and that rate, a code missing
  from the table counting as rate 1. The source writes \<open>|| 1\<close>, which agrees with
  \<open>?? 1\<close> on positive rates; a currency code names no inherited property of the
  table. (With an empty table the source first awaits \<open>fetchRates\<close>.)
\<close>

theorem convertCurrency_cross_pair:
  assumes "0 < amount"
    and "is_currency_code fromCurrency" and "is_currency_code toCurrency"
    and "fromCurrency \<noteq> ''USD''" and "toCurrency \<noteq> ''USD''"
    and "rates st \<noteq> []"
    and "\<forall>(c, r) \<in> set (rates st). 0 < r"
  shows "convertCurrency fl fetchRates st amount fromCurrency toCurrency =
           Some (st,
             \<lparr>convertedAmount =
                js_prod fl (Num amount)
                  (fl (spec_rate (rates st) toCurrency / spec_rate (rates st) fromCurrency)),
              exchangeRate =
                Number (fl (spec_rate (rates st) toCurrency / spec_rate (rates st) fromCurrency)),
              conv_error = None, conv_source = source st, conv_lastUpdate = lastUpdate st\<rparr>)"
proof -
  note f = or_one_get_property [OF assms(7) assms(2)]
  note t = or_one_get_property [OF assms(7) assms(3)]
  from f(2) have "spec_rate (rates st) fromCurrency \<noteq> 0" by simp
  with assms(1,4,5) ensureRates_nonempty [OF assms(6)] f(1) t(1) show ?thesis
    by (simp add: convertCurrency_def Let_def)
qed

text \<open>
  The specification's example, on a platform whose rounding is exact on the values at
  hand: 100 EUR to GBP over the table EUR 0.9, GBP 0.8 is converted at 0.8 / 0.9.
\<close>

theorem convertCurrency_cross_pair_witness:
  "convertCurrency Num (\<lambda>c s. None) example_state 100 ''EUR'' ''GBP'' =
     Some (example_state,
       \<lparr>convertedAmount = Num (800 / 9), exchangeRate = Number (Num (8 / 9)),
        conv_error = None, conv_source = Some ''api'', conv_lastUpdate = None\<rparr>)"
proof -
  have "(0::real) < 100"
    and "is_currency_code ''EUR''" and "is_currency_code ''GBP''"
    and "''EUR'' \<noteq> ''USD''" and "''GBP'' \<noteq> ''USD''"
    and "rates example_state \<noteq> []"
    and "\<forall>(c, r) \<in> set (rates example_state). 0 < r"
    by (simp_all add: example_state_def is_currency_code_def)
  from convertCurrency_cross_pair [OF this, of Num "\<lambda>c s. None"]
  show ?thesis by (simp add: spec_rate_def example_state_def)
qed

text \<open>
  A code that is no currency code can name an inherited property: the rate of
  \<open>constructor\<close> is not 1 but a function, and the conversion gives NaN.
\<close>

lemma convertCurrency_inherited_property:
  "convertCurrency Num (\<lambda>c s. None) example_state 100 ''EUR'' ''constructor'' =
     Some (example_state,
       \<lparr>convertedAmount = NaN, exchangeRate = Number NaN,
        conv_error = None, conv_source = Some ''api'', conv_lastUpdate = None\<rparr>)"
  by (simp add: convertCurrency_def ensureRates_def example_state_def get_property_def
      prototype_names_def Let_def)

section \<open>Properties of the cache\<close>

lemma map_of_filter_key:
  "map_of (filter (\<lambda>(k, v). P k) s) key = (if P key then map_of s key else None)"
  by (induction s) auto

lemma dataKey_not_timestamp:
  assumes "prefix cacheTimestampKey key"
    and "\<not> prefix (cacheTimestampKey @ ''Timestamp'') key"
  shows "\<not> prefix cacheTimestampKey (cacheKey @ drop (length cacheTimestampKey) key)"
proof -
  from assms(1) obtain rest where key: "key = cacheTimestampKey @ rest"
    by (auto simp: prefix_def)
  from assms(2) have "\<not> prefix ''Timestamp'' rest"
    by (simp add: key)
  then show ?thesis
    by (simp add: key cacheKey_def cacheTimestampKey_def)
qed

lemma sweep_no_fault:
  assumes nofault: "\<forall>op. ls_throws env op = None"
    and nested: "\<forall>k \<in> set ks. \<not> prefix (cacheTimestampKey @ ''Timestamp'') k"
  shows "sweep env now ks s =
           (filter (\<lambda>(k, v). k \<notin> expired_keys env now ks s \<and>
               k \<notin> (\<lambda>k. cacheKey @ drop (length cacheTimestampKey) k) ` expired_keys env now ks s) s,
            None)"
  using nested
proof (induction ks arbitrary: s)
  case Nil
  show ?case by (simp add: expired_keys_def)
next
  case (Cons key ks)
  let ?dk = "\<lambda>k. cacheKey @ drop (length cacheTimestampKey) k"
  from Cons.prems have nested': "\<forall>k \<in> set ks. \<not> prefix (cacheTimestampKey @ ''Timestamp'') k"
    by simp
  note IH = Cons.IH [OF nested']
  show ?case
  proof (cases "prefix cacheTimestampKey key \<and> expired env now (map_of s key)")
    case False
    then have E: "expired_keys env now (key # ks) s = expired_keys env now ks s"
      by (auto simp: expired_keys_def)
    from False show ?thesis
      unfolding E [symmetric]
      by (auto simp: getItem_def nofault IH E expired_def split: option.splits)
  next
    case True
    let ?s2 = "AList.delete (?dk key) (AList.delete key s)"
    have nd: "\<not> prefix cacheTimestampKey (?dk key)"
      using True Cons.prems by (intro dataKey_not_timestamp) auto
    have m: "map_of ?s2 k = map_of s k" if "k \<in> set ks" "prefix cacheTimestampKey k" "k \<noteq> key" for k
      using that nd by (auto simp: delete_conv)
    have m0: "map_of ?s2 key = None"
      by (simp add: delete_conv)
    have E: "expired_keys env now (key # ks) s = insert key (expired_keys env now ks ?s2)"
    proof (rule set_eqI)
      fix k
      show "k \<in> expired_keys env now (key # ks) s \<longleftrightarrow>
            k \<in> insert key (expired_keys env now ks ?s2)"
      proof (cases "k = key")
        case True
        with \<open>prefix cacheTimestampKey key \<and> expired env now (map_of s key)\<close>
        show ?thesis by (simp add: expired_keys_def)
      next
        case False
        then show ?thesis using m [of k] by (auto simp: expired_keys_def)
      qed
    qed
    from True obtain ts where ts: "map_of s key = Some ts" "ts \<noteq> []"
      "age_greater (age_at env now ts) (cacheDuration * 2)"
      by (auto simp: expired_def split: option.splits)
    have "sweep env now (key # ks) s = sweep env now ks ?s2"
      using True ts by (simp add: getItem_def removeItem_def nofault)
    also have "\<dots> = (filter (\<lambda>(k, v). k \<notin> expired_keys env now ks ?s2 \<and>
               k \<notin> ?dk ` expired_keys env now ks ?s2) ?s2, None)"
      by (rule IH)
    also have "filter (\<lambda>(k, v). k \<notin> expired_keys env now ks ?s2 \<and>
               k \<notin> ?dk ` expired_keys env now ks ?s2) ?s2 =
             filter (\<lambda>(k, v). k \<notin> expired_keys env now (key # ks) s \<and>
               k \<notin> ?dk ` expired_keys env now (key # ks) s) s"
      unfolding E by (auto simp: AList.delete_eq intro!: filter_cong)
    finally show ?thesis .
  qed
qed


lemma cleanOldCache_items:
  assumes nofault: "\<forall>op. ls_throws env op = None"
    and nested: "\<forall>k \<in> fst ` set (items w). \<not> prefix (cacheTimestampKey @ ''Timestamp'') k"
  shows "items (cleanOldCache env w) =
           filter (\<lambda>(k, v). k \<notin> expired_keys env (clock w) (map fst (items w)) (items w) \<and>
               k \<notin> (\<lambda>k. cacheKey @ drop (length cacheTimestampKey) k) `
                     expired_keys env (clock w) (map fst (items w)) (items w)) (items w)"
proof -
  from nested have "\<forall>k \<in> set (map fst (items w)). \<not> prefix (cacheTimestampKey @ ''Timestamp'') k"
    by simp
  from sweep_no_fault [OF nofault this] show ?thesis
    by (simp add: cleanOldCache_def keys_def nofault)
qed

lemma timestampKey_expired_iff:
  "timestampKeyOf B \<in> expired_keys env now (map fst s) s \<longleftrightarrow>
     expired env now (map_of s (timestampKeyOf B))"
proof -
  have "prefix cacheTimestampKey (timestampKeyOf B)"
    by (simp add: timestampKeyOf_def)
  moreover have "timestampKeyOf B \<in> fst ` set s" if "expired env now (map_of s (timestampKeyOf B))"
    using that by (auto simp: expired_def split: option.splits dest: map_of_SomeD intro: rev_image_eqI)
  ultimately show ?thesis
    by (auto simp: expired_keys_def)
qed

lemma swept_timestampKey:
  assumes nofault: "\<forall>op. ls_throws env op = None"
    and nested: "\<forall>k \<in> fst ` set (items w). \<not> prefix (cacheTimestampKey @ ''Timestamp'') k"
  shows "map_of (items (cleanOldCache env w)) (timestampKeyOf B) =
           (if expired env (clock w) (map_of (items w) (timestampKeyOf B)) then None
            else map_of (items w) (timestampKeyOf B))"
proof -
  let ?E = "expired_keys env (clock w) (map fst (items w)) (items w)"
  let ?dk = "\<lambda>k. cacheKey @ drop (length cacheTimestampKey) k"
  have "timestampKeyOf B \<notin> ?dk ` ?E"
  proof
    assume "timestampKeyOf B \<in> ?dk ` ?E"
    then obtain k where k: "k \<in> ?E" "timestampKeyOf B = ?dk k" by auto
    from k(1) have "prefix cacheTimestampKey k" "k \<in> fst ` set (items w)"
      by (auto simp: expired_keys_def)
    with nested have "\<not> prefix cacheTimestampKey (?dk k)"
      by (intro dataKey_not_timestamp) auto
    moreover have "prefix cacheTimestampKey (timestampKeyOf B)"
      by (simp add: timestampKeyOf_def)
    ultimately show False using k(2) by simp
  qed
  then show ?thesis
    by (simp add: cleanOldCache_items [OF nofault nested] map_of_filter_key
        timestampKey_expired_iff)
qed

lemma swept_dataKey:
  assumes nofault: "\<forall>op. ls_throws env op = None"
    and nested: "\<forall>k \<in> fst ` set (items w). \<not> prefix (cacheTimestampKey @ ''Timestamp'') k"
  shows "map_of (items (cleanOldCache env w)) (dataKeyOf B) =
           (if expired env (clock w) (map_of (items w) (timestampKeyOf B)) then None
            else map_of (items w) (dataKeyOf B))"
proof -
  let ?E = "expired_keys env (clock w) (map fst (items w)) (items w)"
  let ?dk = "\<lambda>k. cacheKey @ drop (length cacheTimestampKey) k"
  have 1: "dataKeyOf B \<notin> ?E"
    by (simp add: expired_keys_def dataKeyOf_def cacheKey_def cacheTimestampKey_def)
  have 2: "dataKeyOf B \<in> ?dk ` ?E \<longleftrightarrow> timestampKeyOf B \<in> ?E"
  proof
    assume "dataKeyOf B \<in> ?dk ` ?E"
    then obtain k where k: "k \<in> ?E" "dataKeyOf B = ?dk k" by auto
    from k(1) obtain rest where rest: "k = cacheTimestampKey @ rest"
      by (auto simp: expired_keys_def prefix_def)
    with k(2) have "k = timestampKeyOf B"
      by (simp add: dataKeyOf_def timestampKeyOf_def)
    with k(1) show "timestampKeyOf B \<in> ?E" by simp
  next
    assume "timestampKeyOf B \<in> ?E"
    moreover have "?dk (timestampKeyOf B) = dataKeyOf B"
      by (simp add: dataKeyOf_def timestampKeyOf_def)
    ultimately show "dataKeyOf B \<in> ?dk ` ?E" by (metis imageI)
  qed
  show ?thesis
    by (simp add: cleanOldCache_items [OF nofault nested] map_of_filter_key 1 2
        timestampKey_expired_iff)
qed

text \<open>
  The sweep below takes the data key of a timestamp key by rewriting its prefix. A key
  that starts with \<open>exchangeRatesTimestampTimestamp\<close> would send it to the timestamp key
  of another entry. The service never writes such a key: \<open>cacheRates\<close> adds only the two
  keys of its base currency, whatever the platform does.
\<close>

lemma sweep_keys_subset: "fst ` set (fst (sweep env now ks s)) \<subseteq> fst ` set s"
proof (induction ks arbitrary: s)
  case Nil
  show ?case by simp
next
  case (Cons key ks)
  have del: "fst ` set (fst (sweep env now ks (AList.delete k2 (AList.delete k1 s)))) \<subseteq> fst ` set s"
    for k1 k2
    using Cons.IH [of "AList.delete k2 (AList.delete k1 s)"]
      dom_delete_subset [of k2 "AList.delete k1 s"] dom_delete_subset [of k1 s]
    by blast
  have del1: "fst ` set (AList.delete k1 s) \<subseteq> fst ` set s" for k1
    by (rule dom_delete_subset)
  show ?case
    using Cons.IH [of s] del del1
    by (auto simp: getItem_def removeItem_def Let_def split: option.splits)
qed

lemma cacheRates_keys_subset:
  "fst ` set (items (cacheRates env w B T)) \<subseteq>
     insert (dataKeyOf B) (insert (timestampKeyOf B) (fst ` set (items w)))"
proof -
  have clean: "fst ` set (items (cleanOldCache env w')) \<subseteq> fst ` set (items w')" for w'
    using sweep_keys_subset [of env "clock w'" "map fst (items w')" "items w'"]
    by (auto simp: cleanOldCache_def keys_def split: option.splits)
  show ?thesis
    using clean [of "w\<lparr>items := AList.update (timestampKeyOf B) (toISOString env (clock w))
        (AList.update (dataKeyOf B) (JSON_stringify env T) (items w))\<rparr>"]
    by (auto simp: cacheRates_def setItem_def Let_def dom_update split: option.splits)
qed

lemma cacheRates_no_nested_key:
  assumes "\<forall>k \<in> fst ` set (items w). \<not> prefix (cacheTimestampKey @ ''Timestamp'') k"
  shows "\<forall>k \<in> fst ` set (items (cacheRates env w B T)).
           \<not> prefix (cacheTimestampKey @ ''Timestamp'') k"
proof
  fix k
  assume "k \<in> fst ` set (items (cacheRates env w B T))"
  with cacheRates_keys_subset [of env w B T]
  have "k = dataKeyOf B \<or> k = timestampKeyOf B \<or> k \<in> fst ` set (items w)" by blast
  moreover have "\<not> prefix (cacheTimestampKey @ ''Timestamp'') (timestampKeyOf B)"
    by (simp add: timestampKeyOf_def)
  moreover have "\<not> prefix (cacheTimestampKey @ ''Timestamp'') (dataKeyOf B)"
    by (simp add: dataKeyOf_def cacheKey_def cacheTimestampKey_def)
  ultimately show "\<not> prefix (cacheTimestampKey @ ''Timestamp'') k"
    using assms by auto
qed

lemma getCachedRates_entry:
  assumes "ls_throws env (GetItem (dataKeyOf B)) = None"
    and "ls_throws env (GetItem (timestampKeyOf B)) = None"
    and "map_of (items w) (dataKeyOf B) = Some d" and "d \<noteq> []" and "JSON_parse env d = Some T"
    and "map_of (items w) (timestampKeyOf B) = Some ts" and "ts \<noteq> []"
  shows "getCachedRates env w B allowStale =
           (if allowStale \<or> age_less (age_at env (clock w) ts) cacheDuration
            then Some \<lparr>c_rates = T, c_timestamp = ts, c_age = age_at env (clock w) ts\<rparr>
            else None)"
  using assms by (simp add: getCachedRates_def getItem_def Let_def)

text \<open>
  Claim C5. For every base currency \<open>B\<close> and every rate table \<open>T\<close>, \<open>cacheRates\<close> at one
  time followed by \<open>getCachedRates\<close> with \<open>allowStale = false\<close> at a time \<open>t\<close> less than
  five minutes later returns exactly \<open>T\<close>, with the timestamp of the write. The platform
  is one on which the storage does not throw, \<open>JSON.parse\<close> inverts \<open>JSON.stringify\<close>
  on \<open>T\<close> and \<open>new Date\<close> reads back the ISO string of the time of the write, and the
  storage holds no key that starts with \<open>exchangeRatesTimestampTimestamp\<close> (the sweep
  would take the data key it derives from such a key for a cache key; the service
  writes no such key).
\<close>

theorem cache_round_trip:
  assumes nofault: "\<forall>op. ls_throws env op = None"
    and json: "JSON_parse env (JSON_stringify env T) = Some T" "JSON_stringify env T \<noteq> []"
    and date: "Date_getTime env (toISOString env (clock w)) = Some (clock w)"
      "toISOString env (clock w) \<noteq> []"
    and nested: "\<forall>k \<in> fst ` set (items w). \<not> prefix (cacheTimestampKey @ ''Timestamp'') k"
    and fresh: "t - clock w < cacheDuration"
  shows "getCachedRates env ((cacheRates env w B T)\<lparr>clock := t\<rparr>) B False =
           Some \<lparr>c_rates = T, c_timestamp = toISOString env (clock w), c_age = Some (t - clock w)\<rparr>"
proof -
  let ?d = "JSON_stringify env T" and ?ts = "toISOString env (clock w)"
  let ?s2 = "AList.update (timestampKeyOf B) ?ts (AList.update (dataKeyOf B) ?d (items w))"
  let ?w2 = "w\<lparr>items := ?s2\<rparr>"
  have put: "cacheRates env w B T = cleanOldCache env ?w2"
    by (simp add: cacheRates_def setItem_def nofault)
  have ne: "dataKeyOf B \<noteq> timestampKeyOf B"
    by (simp add: dataKeyOf_def timestampKeyOf_def cacheKey_def cacheTimestampKey_def)
  have nested2: "\<forall>k \<in> fst ` set (items ?w2). \<not> prefix (cacheTimestampKey @ ''Timestamp'') k"
  proof -
    have "fst ` set (items ?w2) =
        insert (timestampKeyOf B) (insert (dataKeyOf B) (fst ` set (items w)))"
      by (auto simp: dom_update)
    moreover have "\<not> prefix (cacheTimestampKey @ ''Timestamp'') (timestampKeyOf B)"
      by (simp add: timestampKeyOf_def)
    moreover have "\<not> prefix (cacheTimestampKey @ ''Timestamp'') (dataKeyOf B)"
      by (simp add: dataKeyOf_def cacheKey_def cacheTimestampKey_def)
    ultimately show ?thesis using nested by simp
  qed
  have ts2: "map_of (items ?w2) (timestampKeyOf B) = Some ?ts"
    by (simp add: update_conv')
  have d2: "map_of (items ?w2) (dataKeyOf B) = Some ?d"
    using ne by (simp add: update_conv')
  have notexp: "\<not> expired env (clock ?w2) (map_of (items ?w2) (timestampKeyOf B))"
    unfolding ts2 by (simp add: expired_def age_at_def date age_greater_def cacheDuration_def)
  have "map_of (items (cacheRates env w B T)) (timestampKeyOf B) = Some ?ts"
    unfolding put using swept_timestampKey [OF nofault nested2, of B] notexp ts2 by simp
  moreover have "map_of (items (cacheRates env w B T)) (dataKeyOf B) = Some ?d"
    unfolding put using swept_dataKey [OF nofault nested2, of B] notexp d2 by simp
  ultimately show ?thesis
    using getCachedRates_entry [of env B "(cacheRates env w B T)\<lparr>clock := t\<rparr>" ?d T ?ts False]
      nofault json date fresh
    by (simp add: age_at_def age_less_def)
qed

text \<open>Rates for EUR written at 1 min and read at 1 min 40 s.\<close>

theorem cache_round_trip_witness:
  "getCachedRates example_env
     ((cacheRates example_env (example_world\<lparr>clock := 60000\<rparr>) ''EUR'' ''{USD:1.1}'')
        \<lparr>clock := 100000\<rparr>) ''EUR'' False =
   Some \<lparr>c_rates = ''{USD:1.1}'', c_timestamp = ''1970-01-01T00:01:00.000Z'',
         c_age = Some 40000\<rparr>"
proof -
  have "\<forall>op. ls_throws example_env op = None"
    and "JSON_parse example_env (JSON_stringify example_env ''{USD:1.1}'') = Some ''{USD:1.1}''"
    and "JSON_stringify example_env ''{USD:1.1}'' \<noteq> []"
    and "Date_getTime example_env (toISOString example_env (clock (example_world\<lparr>clock := 60000\<rparr>)))
           = Some (clock (example_world\<lparr>clock := 60000\<rparr>))"
    and "toISOString example_env (clock (example_world\<lparr>clock := 60000\<rparr>)) \<noteq> []"
    and "\<forall>k \<in> fst ` set (items (example_world\<lparr>clock := 60000\<rparr>)).
           \<not> prefix (cacheTimestampKey @ ''Timestamp'') k"
    and "100000 - clock (example_world\<lparr>clock := 60000\<rparr>) < cacheDuration"
    by (simp_all add: example_env_def example_world_def iso_times_def cacheTimestampKey_def
        cacheDuration_def)
  from cache_round_trip [OF this, of "''EUR''"] show ?thesis
    by (simp add: example_env_def iso_times_def)
qed

text \<open>
  Claim C6. For an entry of \<open>B\<close> in the cache (a non-empty data string that parses to
  \<open>T\<close>, a non-empty timestamp that reads as the time \<open>t0\<close>) and its age
  \<open>a = clock w - t0\<close>: \<open>getCachedRates\<close> with \<open>allowStale = false\<close> returns the entry iff
  \<open>a < cacheDuration\<close> (5 minutes); with \<open>allowStale = true\<close> it returns the entry
  whatever the age; and the sweep \<open>cleanOldCache\<close>, which \<open>cacheRates\<close> runs, removes the
  two keys of the entry iff \<open>a\<close> exceeds twice \<open>cacheDuration\<close>, and leaves them as they
  are otherwise. The storage does not throw and holds no key that starts with
  \<open>exchangeRatesTimestampTimestamp\<close>.
\<close>

theorem cache_staleness:
  assumes nofault: "\<forall>op. ls_throws env op = None"
    and data: "map_of (items w) (dataKeyOf B) = Some d" "d \<noteq> []" "JSON_parse env d = Some T"
    and stamp: "map_of (items w) (timestampKeyOf B) = Some ts" "ts \<noteq> []"
      "Date_getTime env ts = Some t0"
    and nested: "\<forall>k \<in> fst ` set (items w). \<not> prefix (cacheTimestampKey @ ''Timestamp'') k"
  shows "getCachedRates env w B False =
           (if clock w - t0 < cacheDuration
            then Some \<lparr>c_rates = T, c_timestamp = ts, c_age = Some (clock w - t0)\<rparr> else None)
       \<and> getCachedRates env w B True =
           Some \<lparr>c_rates = T, c_timestamp = ts, c_age = Some (clock w - t0)\<rparr>
       \<and> map_of (items (cleanOldCache env w)) (dataKeyOf B) =
           (if 2 * cacheDuration < clock w - t0 then None else Some d)
       \<and> map_of (items (cleanOldCache env w)) (timestampKeyOf B) =
           (if 2 * cacheDuration < clock w - t0 then None else Some ts)
       \<and> getCachedRates env (cleanOldCache env w) B True =
           (if 2 * cacheDuration < clock w - t0 then None
            else Some \<lparr>c_rates = T, c_timestamp = ts, c_age = Some (clock w - t0)\<rparr>)"
proof -
  have age: "age_at env (clock w) ts = Some (clock w - t0)"
    by (simp add: age_at_def stamp)
  have exp: "expired env (clock w) (Some ts) \<longleftrightarrow> 2 * cacheDuration < clock w - t0"
    by (simp add: expired_def stamp age age_greater_def mult.commute)
  have exp': "expired env (clock w) (map_of (items w) (timestampKeyOf B)) \<longleftrightarrow>
      2 * cacheDuration < clock w - t0"
    using exp by (simp add: stamp)
  have g: "getCachedRates env w B allowStale =
           (if allowStale \<or> clock w - t0 < cacheDuration
            then Some \<lparr>c_rates = T, c_timestamp = ts, c_age = Some (clock w - t0)\<rparr> else None)"
    for allowStale
    using getCachedRates_entry [of env B w d T ts allowStale] nofault data stamp
    by (simp add: age age_less_def)
  have dk: "map_of (items (cleanOldCache env w)) (dataKeyOf B) =
           (if 2 * cacheDuration < clock w - t0 then None else Some d)"
    by (simp add: swept_dataKey [OF nofault nested] exp exp' data)
  have tk: "map_of (items (cleanOldCache env w)) (timestampKeyOf B) =
           (if 2 * cacheDuration < clock w - t0 then None else Some ts)"
    by (simp add: swept_timestampKey [OF nofault nested] exp exp' stamp)
  have clk: "clock (cleanOldCache env w) = clock w"
    by (simp add: cleanOldCache_def split: sum.splits)
  have after: "getCachedRates env (cleanOldCache env w) B True =
           (if 2 * cacheDuration < clock w - t0 then None
            else Some \<lparr>c_rates = T, c_timestamp = ts, c_age = Some (clock w - t0)\<rparr>)"
  proof (cases "2 * cacheDuration < clock w - t0")
    case True
    then show ?thesis
      by (simp add: getCachedRates_def getItem_def nofault dk tk)
  next
    case False
    then show ?thesis
      using getCachedRates_entry [of env B "cleanOldCache env w" d T ts True] nofault data stamp
      by (simp add: dk tk clk age)
  qed
  from g [of False] g [of True] dk tk after show ?thesis by simp
qed


text \<open>An entry of age 11 min 40 s: stale, still served when asked for, and swept.\<close>

theorem cache_staleness_witness:
  "getCachedRates example_env example_world ''USD'' False = None
   \<and> getCachedRates example_env example_world ''USD'' True =
       Some \<lparr>c_rates = ''{EUR:0.9,GBP:0.8}'', c_timestamp = ''1970-01-01T00:00:00.000Z'',
             c_age = Some 700000\<rparr>
   \<and> map_of (items (cleanOldCache example_env example_world)) (dataKeyOf ''USD'') = None
   \<and> map_of (items (cleanOldCache example_env example_world)) (timestampKeyOf ''USD'') = None
   \<and> getCachedRates example_env (cleanOldCache example_env example_world) ''USD'' True = None"
proof -
  have "\<forall>op. ls_throws example_env op = None"
    and "map_of (items example_world) (dataKeyOf ''USD'') = Some ''{EUR:0.9,GBP:0.8}''"
    and "''{EUR:0.9,GBP:0.8}'' \<noteq> []"
    and "JSON_parse example_env ''{EUR:0.9,GBP:0.8}'' = Some ''{EUR:0.9,GBP:0.8}''"
    and "map_of (items example_world) (timestampKeyOf ''USD'') = Some ''1970-01-01T00:00:00.000Z''"
    and "''1970-01-01T00:00:00.000Z'' \<noteq> []"
    and "Date_getTime example_env ''1970-01-01T00:00:00.000Z'' = Some 0"
    and "\<forall>k \<in> fst ` set (items example_world).
           \<not> prefix (cacheTimestampKey @ ''Timestamp'') k"
    by (simp_all add: example_env_def example_world_def iso_times_def cacheTimestampKey_def
        cacheKey_def dataKeyOf_def timestampKeyOf_def)
  from cache_staleness [OF this] show ?thesis
    by (simp add: example_world_def cacheDuration_def)
qed

lemma clear_keys_frame:
  "\<not> (prefix cacheKey k \<or> prefix cacheTimestampKey k) \<Longrightarrow>
     map_of (fst (clear_keys env ks s)) k = map_of s k"
proof (induction ks arbitrary: s)
  case Nil
  show ?case by simp
next
  case (Cons key ks)
  show ?case
  proof (cases "prefix cacheKey key \<or> prefix cacheTimestampKey key")
    case False
    with Cons show ?thesis by simp
  next
    case True
    with Cons.prems have "k \<noteq> key" by auto
    with True Cons show ?thesis
      by (auto simp: removeItem_def split: option.splits)
  qed
qed

lemma clear_keys_no_fault:
  assumes nofault: "\<forall>op. ls_throws env op = None"
  shows "clear_keys env ks s =
           (filter (\<lambda>(k, v). \<not> (k \<in> set ks \<and> (prefix cacheKey k \<or> prefix cacheTimestampKey k))) s,
            None)"
proof (induction ks arbitrary: s)
  case Nil
  show ?case by simp
next
  case (Cons key ks)
  show ?case
    by (auto simp: removeItem_def nofault Cons.IH AList.delete_eq intro!: filter_cong)
qed

text \<open>
  Claim C9. \<open>clearCache\<close> leaves every key that starts with neither \<open>exchangeRates\<close> nor
  \<open>exchangeRatesTimestamp\<close> with its value, and changes no field of the service but the
  storage (the counters, the time of the last request, the fallback table stay), also when
  the storage throws; and on a storage that does not throw it removes exactly the keys
  that start with one of the two prefixes.
\<close>

theorem clearCache_frame:
  "(\<forall>k. \<not> (prefix cacheKey k \<or> prefix cacheTimestampKey k) \<longrightarrow>
        map_of (items (fst (clearCache env w))) k = map_of (items w) k)
   \<and> (fst (clearCache env w))\<lparr>items := items w\<rparr> = w
   \<and> ((\<forall>op. ls_throws env op = None) \<longrightarrow>
        clearCache env w =
          (w\<lparr>items :=
               filter (\<lambda>(k, v). \<not> (prefix cacheKey k \<or> prefix cacheTimestampKey k)) (items w)\<rparr>,
           None))"
proof (intro conjI allI impI)
  fix k
  assume "\<not> (prefix cacheKey k \<or> prefix cacheTimestampKey k)"
  from clear_keys_frame [OF this, of env "map fst (items w)" "items w"]
  show "map_of (items (fst (clearCache env w))) k = map_of (items w) k"
    by (simp add: clearCache_def keys_def case_prod_beta split: option.splits)
next
  show "(fst (clearCache env w))\<lparr>items := items w\<rparr> = w"
    by (simp add: clearCache_def keys_def case_prod_beta split: option.splits)
next
  assume nofault: "\<forall>op. ls_throws env op = None"
  have "filter (\<lambda>(k, v). \<not> (k \<in> set (map fst (items w)) \<and>
            (prefix cacheKey k \<or> prefix cacheTimestampKey k))) (items w) =
        filter (\<lambda>(k, v). \<not> (prefix cacheKey k \<or> prefix cacheTimestampKey k)) (items w)"
    by (rule filter_cong) (auto intro: rev_image_eqI)
  then show "clearCache env w =
          (w\<lparr>items :=
               filter (\<lambda>(k, v). \<not> (prefix cacheKey k \<or> prefix cacheTimestampKey k)) (items w)\<rparr>,
           None)"
    by (simp add: clearCache_def keys_def nofault clear_keys_no_fault [OF nofault])
qed

text \<open>Clearing the example storage leaves the one key of the other program.\<close>

theorem clearCache_frame_witness:
  "clearCache example_env example_world =
     (example_world\<lparr>items := [(''theme'', ''dark'')]\<rparr>, None)
   \<and> map_of (items (fst (clearCache example_env example_world))) ''theme'' = Some ''dark''"
proof -
  have nofault: "\<forall>op. ls_throws example_env op = None"
    by (simp add: example_env_def)
  have other: "\<not> (prefix cacheKey ''theme'' \<or> prefix cacheTimestampKey ''theme'')"
    by (simp add: cacheKey_def cacheTimestampKey_def)
  from clearCache_frame [of example_env example_world] nofault other
  show ?thesis
    by (simp add: example_world_def cacheKey_def cacheTimestampKey_def)
qed

section \<open>Properties of the fetch pipeline and of getExchangeRates\<close>

lemma fetch_rounds_flat:
  "fetch_rounds net B m [primaryUrl B, secondaryUrl B] a w le =
     flat_pipeline net B m (2 * (m - a)) (2 * a) w le"
proof (induction "m - a" arbitrary: a w le)
  case 0
  then show ?case by (simp add: fetch_rounds.simps)
next
  case (Suc d)
  then have lt: "a < m" and d: "d = m - Suc a" by simp_all
  from lt have two: "2 * (m - a) = Suc (Suc (2 * (m - Suc a)))" by simp
  have IH: "fetch_rounds net B m [primaryUrl B, secondaryUrl B] (Suc a) w' le' =
     flat_pipeline net B m (2 * (m - Suc a)) (Suc (Suc (2 * a))) w' le'" for w' le'
    using Suc.hyps(1) [OF d, of w' le'] by simp
  show ?case
    unfolding two
    by (subst fetch_rounds.simps)
      (simp add: lt IH split: prod.splits sum.splits)
qed


lemma fetchWithRetry_flat:
  "fetchWithRetry net w B m = flat_pipeline net B m (2 * m) 0 w None"
  using fetch_rounds_flat [of net B m 0 w None] by (simp add: fetchWithRetry_def)

lemma fetch_attempt_fields:
  "net_calls (fst (fetch_attempt net w a url B)) = Suc (net_calls w)"
  "snd (fetch_attempt net w a url B) = read_response B (fst (net (net_calls w) url))"
  "trace (fst (fetch_attempt net w a url B)) = trace w @ [Fetch a url (clock w)]"
  "clock (fst (fetch_attempt net w a url B)) = clock w + int (snd (net (net_calls w) url))"
  by (simp_all add: fetch_attempt_def case_prod_beta)

lemma sleep_fields:
  "net_calls (sleep w ms) = net_calls w"
  "trace (sleep w ms) = trace w @ [Sleep (clock w) ms]"
  "clock (sleep w ms) = clock w + max 0 ms"
  by (simp_all add: sleep_def)

lemma flat_pipeline_success:
  assumes "j < n"
    and "\<forall>i<j. isl (call_result net B (net_calls w - k) (k + i))"
    and "call_result net B (net_calls w - k) (k + j) = Inr v"
    and "k \<le> net_calls w"
  shows "snd (flat_pipeline net B m n k w le) = Inr v \<and>
         net_calls (fst (flat_pipeline net B m n k w le)) = net_calls w + j + 1"
  using assms
proof (induction n arbitrary: j k w le)
  case 0
  then show ?case by simp
next
  case (Suc n)
  let ?url = "if even k then primaryUrl B else secondaryUrl B"
  obtain w1 r where fa: "fetch_attempt net w (k div 2) ?url B = (w1, r)"
    by (cases "fetch_attempt net w (k div 2) ?url B")
  from fa fetch_attempt_fields(1,2) [of net w "k div 2" ?url B]
  have w1: "net_calls w1 = Suc (net_calls w)" and r: "r = call_result net B (net_calls w - k) k"
    using Suc.prems(4) by (simp_all add: call_result_def)
  show ?case
  proof (cases j)
    case 0
    with Suc.prems(3) r have "r = Inr v" by simp
    with fa w1 0 show ?thesis by simp
  next
    case (Suc j')
    with Suc.prems(2) have "isl (call_result net B (net_calls w - k) (k + 0))" by blast
    then have "isl r" unfolding r by simp
    then obtain e where e: "r = Inl e" by (auto simp: isl_def)
    let ?w2 = "if int (k div 2) < int m - 1 then sleep w1 (1000 * (int (k div 2) + 1)) else w1"
    have n2: "net_calls ?w2 = Suc (net_calls w)" by (simp add: sleep_fields w1)
    have off: "net_calls ?w2 - Suc k = net_calls w - k" using Suc.prems(4) n2 by simp
    have "snd (flat_pipeline net B m n (Suc k) ?w2 (Some e)) = Inr v \<and>
          net_calls (fst (flat_pipeline net B m n (Suc k) ?w2 (Some e))) = net_calls ?w2 + j' + 1"
    proof (rule Suc.IH)
      show "j' < n" using Suc.prems(1) \<open>j = Suc j'\<close> by simp
      show "\<forall>i<j'. isl (call_result net B (net_calls ?w2 - Suc k) (Suc k + i))"
        unfolding off using Suc.prems(2) \<open>j = Suc j'\<close>
        by (metis Suc_less_eq add_Suc_right add_Suc)
      show "call_result net B (net_calls ?w2 - Suc k) (Suc k + j') = Inr v"
        unfolding off using Suc.prems(3) \<open>j = Suc j'\<close> by simp
      show "Suc k \<le> net_calls ?w2" using Suc.prems(4) n2 by simp
    qed
    with fa e n2 \<open>j = Suc j'\<close> show ?thesis by simp
  qed
qed

lemma flat_pipeline_exhausted:
  assumes "\<forall>i<n. isl (call_result net B (net_calls w - k) (k + i))"
    and "k \<le> net_calls w"
  shows "snd (flat_pipeline net B m n k w le) =
           Inl (if n = 0 then le else Some (projl (call_result net B (net_calls w - k) (k + n - 1)))) \<and>
         net_calls (fst (flat_pipeline net B m n k w le)) = net_calls w + n"
  using assms
proof (induction n arbitrary: k w le)
  case 0
  then show ?case by simp
next
  case (Suc n)
  let ?url = "if even k then primaryUrl B else secondaryUrl B"
  obtain w1 r where fa: "fetch_attempt net w (k div 2) ?url B = (w1, r)"
    by (cases "fetch_attempt net w (k div 2) ?url B")
  from fa fetch_attempt_fields(1,2) [of net w "k div 2" ?url B]
  have w1: "net_calls w1 = Suc (net_calls w)" and r: "r = call_result net B (net_calls w - k) k"
    using Suc.prems(2) by (simp_all add: call_result_def)
  from Suc.prems(1) have "isl (call_result net B (net_calls w - k) (k + 0))" by blast
  then have "isl r" unfolding r by simp
  then obtain e where e: "r = Inl e" by (auto simp: isl_def)
  let ?w2 = "if int (k div 2) < int m - 1 then sleep w1 (1000 * (int (k div 2) + 1)) else w1"
  have n2: "net_calls ?w2 = Suc (net_calls w)" by (simp add: sleep_fields w1)
  have off: "net_calls ?w2 - Suc k = net_calls w - k" using Suc.prems(2) n2 by simp
  have IH: "snd (flat_pipeline net B m n (Suc k) ?w2 (Some e)) =
           Inl (if n = 0 then Some e
                else Some (projl (call_result net B (net_calls ?w2 - Suc k) (Suc k + n - 1)))) \<and>
         net_calls (fst (flat_pipeline net B m n (Suc k) ?w2 (Some e))) = net_calls ?w2 + n"
  proof (rule Suc.IH)
    show "\<forall>i<n. isl (call_result net B (net_calls ?w2 - Suc k) (Suc k + i))"
      unfolding off using Suc.prems(1)
      by (metis Suc_less_eq add_Suc_right add_Suc)
    show "Suc k \<le> net_calls ?w2" using Suc.prems(2) n2 by simp
  qed
  show ?case
  proof (cases "n = 0")
    case True
    with fa e r show ?thesis by (simp add: w1 sleep_fields)
  next
    case False
    with IH fa e n2 off show ?thesis by simp
  qed
qed


text \<open>
  Claim C3, as the code has it. \<open>fetchWithRetry\<close> is the single loop \<open>flat_pipeline\<close>
  over its \<open>2 * maxRetries\<close> network calls: a failed call in a round other than the last
  is followed by a sleep of \<open>1000 * (round + 1)\<close> ms before the next call, whichever
  endpoint failed, so also between the two endpoints of one round, and a failed call of
  the last round is followed by no sleep. On the first success the pipeline returns that
  result and makes no further call; when all \<open>2 * maxRetries\<close> calls fail it throws the
  error of the last one.
\<close>

theorem fetchWithRetry_pipeline:
  "fetchWithRetry net w B m = flat_pipeline net B m (2 * m) 0 w None
   \<and> (\<forall>j v. j < 2 * m \<and> (\<forall>i<j. isl (call_result net B (net_calls w) i)) \<and>
          call_result net B (net_calls w) j = Inr v \<longrightarrow>
          snd (fetchWithRetry net w B m) = Inr v \<and>
          net_calls (fst (fetchWithRetry net w B m)) = net_calls w + j + 1)
   \<and> (0 < m \<and> (\<forall>i<2 * m. isl (call_result net B (net_calls w) i)) \<longrightarrow>
          snd (fetchWithRetry net w B m) =
            Inl (Some (projl (call_result net B (net_calls w) (2 * m - 1)))) \<and>
          net_calls (fst (fetchWithRetry net w B m)) = net_calls w + 2 * m)"
proof (intro conjI allI impI)
  show "fetchWithRetry net w B m = flat_pipeline net B m (2 * m) 0 w None"
    by (rule fetchWithRetry_flat)
next
  fix j v
  assume H: "j < 2 * m \<and> (\<forall>i<j. isl (call_result net B (net_calls w) i)) \<and>
          call_result net B (net_calls w) j = Inr v"
  then have "j < 2 * m" and "\<forall>i<j. isl (call_result net B (net_calls w - 0) (0 + i))"
    and "call_result net B (net_calls w - 0) (0 + j) = Inr v" and "0 \<le> net_calls w"
    by simp_all
  from flat_pipeline_success [OF this, of m None]
  show "snd (fetchWithRetry net w B m) = Inr v"
    and "net_calls (fst (fetchWithRetry net w B m)) = net_calls w + j + 1"
    by (simp_all add: fetchWithRetry_flat)
next
  assume H: "0 < m \<and> (\<forall>i<2 * m. isl (call_result net B (net_calls w) i))"
  then have "\<forall>i<2 * m. isl (call_result net B (net_calls w - 0) (0 + i))" and "0 \<le> net_calls w"
    by simp_all
  from flat_pipeline_exhausted [OF this, of m None] H
  show "snd (fetchWithRetry net w B m) =
            Inl (Some (projl (call_result net B (net_calls w) (2 * m - 1))))"
    and "net_calls (fst (fetchWithRetry net w B m)) = net_calls w + 2 * m"
    by (simp_all add: fetchWithRetry_flat)
qed

text \<open>
  Six refused calls end in the last error; after one refused call the answer of the
  second endpoint is returned and two calls are made.
\<close>

theorem fetchWithRetry_pipeline_witness:
  "snd (fetchWithRetry failing_net example_world ''USD'' 3) =
     Inl (Some (Error ''Failed to fetch''))
   \<and> net_calls (fst (fetchWithRetry failing_net example_world ''USD'' 3)) = 6
   \<and> snd (fetchWithRetry flaky_net example_world ''USD'' 3) =
       Inr \<lparr>f_rates = ''{EUR:0.9}'', f_base = ''USD''\<rparr>
   \<and> net_calls (fst (fetchWithRetry flaky_net example_world ''USD'' 3)) = 2"
proof -
  have fail: "(0::nat) < 3 \<and>
      (\<forall>i<2 * 3. isl (call_result failing_net ''USD'' (net_calls example_world) i))"
    by (simp add: call_result_def failing_net_def read_response_def)
  have last: "projl (call_result failing_net ''USD'' (net_calls example_world) (2 * 3 - 1)) =
      Error ''Failed to fetch''"
    by (simp add: call_result_def failing_net_def read_response_def)
  have ok: "(1::nat) < 2 * 3 \<and>
      (\<forall>i<1. isl (call_result flaky_net ''USD'' (net_calls example_world) i)) \<and>
      call_result flaky_net ''USD'' (net_calls example_world) 1 =
        Inr \<lparr>f_rates = ''{EUR:0.9}'', f_base = ''USD''\<rparr>"
    by (simp add: call_result_def flaky_net_def read_response_def example_world_def)
  have nc: "net_calls example_world = 0"
    by (simp add: example_world_def)
  from fetchWithRetry_pipeline [of failing_net example_world "''USD''" 3,
      THEN conjunct2, THEN conjunct2, THEN mp, OF fail] last
  have 1: "snd (fetchWithRetry failing_net example_world ''USD'' 3) =
     Inl (Some (Error ''Failed to fetch''))
   \<and> net_calls (fst (fetchWithRetry failing_net example_world ''USD'' 3)) = 6"
    by (simp add: nc)
  from fetchWithRetry_pipeline [of flaky_net example_world "''USD''" 3,
      THEN conjunct2, THEN conjunct1, THEN spec, THEN spec, THEN mp, OF ok]
  have 2: "snd (fetchWithRetry flaky_net example_world ''USD'' 3) =
       Inr \<lparr>f_rates = ''{EUR:0.9}'', f_base = ''USD''\<rparr>
   \<and> net_calls (fst (fetchWithRetry flaky_net example_world ''USD'' 3)) = 2"
    by (simp add: nc)
  from 1 2 show ?thesis by simp
qed

text \<open>
  Claim C3 as stated fails: with every call refused, the pipeline sleeps one second
  between the attempt on the primary endpoint and the attempt on the secondary endpoint
  of round 0, and two seconds between the two attempts of round 1.
\<close>

theorem sleep_within_round_counterexample:
  "trace (fst (fetchWithRetry failing_net example_world ''USD'' 3)) =
     [Fetch 0 ''https://api.exchangerate-api.com/v4/latest/USD'' 700000,
      Sleep 700005 1000,
      Fetch 0 ''https://open.er-api.com/v6/latest/USD'' 701005,
      Sleep 701010 1000,
      Fetch 1 ''https://api.exchangerate-api.com/v4/latest/USD'' 702010,
      Sleep 702015 2000,
      Fetch 1 ''https://open.er-api.com/v6/latest/USD'' 704015,
      Sleep 704020 2000,
      Fetch 2 ''https://api.exchangerate-api.com/v4/latest/USD'' 706020,
      Fetch 2 ''https://open.er-api.com/v6/latest/USD'' 706025]
   \<and> \<not> sleeps_between_rounds_only
         (trace (fst (fetchWithRetry failing_net example_world ''USD'' 3)))"
  by code_simp

lemma flat_pipeline_thrown:
  "snd (flat_pipeline net B m n k w le) = Inl x \<Longrightarrow> 0 < n \<or> le \<noteq> None \<Longrightarrow> x \<noteq> None"
proof (induction n arbitrary: k w le)
  case 0
  then show ?case by simp
next
  case (Suc n)
  then show ?case
    by (auto split: prod.splits sum.splits)
qed

lemma fetch_starts_append: "fetch_starts (xs @ ys) = fetch_starts xs @ fetch_starts ys"
  by (induction xs rule: fetch_starts.induct) simp_all

lemma backoff_spaced_Cons:
  assumes "backoff_spaced m xs"
    and "\<forall>(a', t') \<in> set xs. int a < int m - 1 \<longrightarrow> t + 1000 * (int a + 1) \<le> t'"
  shows "backoff_spaced m ((a, t) # xs)"
  using assms by (cases xs) auto

lemma flat_pipeline_trace:
  "\<exists>evs. trace (fst (flat_pipeline net B m n k w le)) = trace w @ evs \<and>
     (\<forall>(a, t) \<in> set (fetch_starts evs). clock w \<le> t) \<and>
     backoff_spaced m (fetch_starts evs)"
proof (induction n arbitrary: k w le)
  case 0
  show ?case by simp
next
  case (Suc n)
  let ?url = "if even k then primaryUrl B else secondaryUrl B"
  obtain w1 r where fa: "fetch_attempt net w (k div 2) ?url B = (w1, r)"
    by (cases "fetch_attempt net w (k div 2) ?url B")
  from fa fetch_attempt_fields(3,4) [of net w "k div 2" ?url B]
  have t1: "trace w1 = trace w @ [Fetch (k div 2) ?url (clock w)]"
    and c1: "clock w \<le> clock w1" by simp_all
  show ?case
  proof (cases r)
    case (Inr v)
    with fa t1 show ?thesis by simp
  next
    case (Inl e)
    let ?ms = "1000 * (int (k div 2) + 1)"
    let ?w2 = "if int (k div 2) < int m - 1 then sleep w1 ?ms else w1"
    from Suc.IH [of "Suc k" ?w2 "Some e"] obtain evs2 where
      evs2: "trace (fst (flat_pipeline net B m n (Suc k) ?w2 (Some e))) = trace ?w2 @ evs2"
        "\<forall>(a, t) \<in> set (fetch_starts evs2). clock ?w2 \<le> t"
        "backoff_spaced m (fetch_starts evs2)"
      by blast
    let ?evs = "Fetch (k div 2) ?url (clock w) #
        (if int (k div 2) < int m - 1 then [Sleep (clock w1) ?ms] else []) @ evs2"
    have c2: "clock w1 \<le> clock ?w2" by (simp add: sleep_fields)
    have c2': "int (k div 2) < int m - 1 \<Longrightarrow> clock w + ?ms \<le> clock ?w2"
      using c1 by (simp add: sleep_fields)
    have st: "fetch_starts ?evs = (k div 2, clock w) # fetch_starts evs2"
      by (simp add: fetch_starts_append)
    have "trace (fst (flat_pipeline net B m (Suc n) k w le)) = trace w @ ?evs"
      using fa Inl evs2(1) t1 by (simp add: sleep_fields)
    moreover have "\<forall>(a, t) \<in> set (fetch_starts ?evs). clock w \<le> t"
      unfolding st using evs2(2) c1 c2 by auto
    moreover have "backoff_spaced m (fetch_starts ?evs)"
      unfolding st
    proof (rule backoff_spaced_Cons [OF evs2(3)], clarify)
      fix a' t'
      assume "(a', t') \<in> set (fetch_starts evs2)" and "int (k div 2) < int m - 1"
      with evs2(2) c2' show "clock w + ?ms \<le> t'" by fastforce
    qed
    ultimately show ?thesis by blast
  qed
qed

lemma flat_pipeline_items: "items (fst (flat_pipeline net B m n k w le)) = items w"
proof (induction n arbitrary: k w le)
  case 0
  show ?case by simp
next
  case (Suc n)
  show ?case
    by (simp add: Suc.IH fetch_attempt_def sleep_def case_prod_beta split: sum.splits)
qed

lemma cleanOldCache_trace: "trace (cleanOldCache env w) = trace w"
  by (simp add: cleanOldCache_def split: sum.splits)

lemma cacheRates_trace: "trace (cacheRates env w B T) = trace w"
  by (simp add: cacheRates_def cleanOldCache_trace Let_def split: sum.splits)

lemma rate_limit_fields:
  "items (rate_limit w) = items w"
  "lastRequestTime w + minRequestInterval \<le> clock (rate_limit w)"
  "\<exists>evs. trace (rate_limit w) = trace w @ evs \<and> fetch_starts evs = []"
  by (simp_all add: rate_limit_def sleep_def Let_def)


lemma fetchWithRetry_thrown:
  "snd (fetchWithRetry net w B 3) = Inl x \<Longrightarrow> x \<noteq> None"
  using flat_pipeline_thrown [of net B 3 "2 * 3" 0 w None x]
  by (simp add: fetchWithRetry_flat)

lemma on_error_returns:
  "\<exists>r. snd (on_error env w B startTime (Some err)) = Inr r \<and> success r \<and>
     r_source r \<in> {''error_fallback_cache'', ''error_fallback_hardcoded''} \<and>
     r_warning r = Some ''Last Refreshed Rate''"
  by (simp add: on_error_def Let_def split: option.splits)

lemma getExchangeRates_returns:
  "\<exists>r. snd (getExchangeRates env net w B forceRefresh) = Inr r \<and> success r \<and>
     r_source r \<in> set source_tags \<and>
     (r_warning r = None \<or> r_warning r = Some ''Last Refreshed Rate'')"
proof -
  obtain w2 res where fw: "fetchWithRetry net (rate_limit w) B 3 = (w2, res)"
    by (cases "fetchWithRetry net (rate_limit w) B 3")
  show ?thesis
  proof (cases res)
    case (Inr result)
    with fw show ?thesis
      by (simp add: getExchangeRates_def Let_def source_tags_def split: option.splits)
  next
    case (Inl thrown)
    with fw fetchWithRetry_thrown [of net "rate_limit w" B thrown]
    obtain err where err: "thrown = Some err" by auto
    from on_error_returns [of env w2 B "clock w" err] obtain r where
      "snd (on_error env w2 B (clock w) (Some err)) = Inr r" "success r"
      "r_source r \<in> {''error_fallback_cache'', ''error_fallback_hardcoded''}"
      "r_warning r = Some ''Last Refreshed Rate''"
      by blast
    with fw Inl err show ?thesis
      by (auto simp: getExchangeRates_def Let_def source_tags_def split: option.splits)
  qed
qed

lemma flat_pipeline_origin:
  assumes "snd (flat_pipeline net B m n k w le) = Inr v" and "k \<le> net_calls w"
  shows "\<exists>j<n. call_result net B (net_calls w - k) (k + j) = Inr v"
  using assms
proof (induction n arbitrary: k w le)
  case 0
  then show ?case by simp
next
  case (Suc n)
  let ?url = "if even k then primaryUrl B else secondaryUrl B"
  obtain w1 r where fa: "fetch_attempt net w (k div 2) ?url B = (w1, r)"
    by (cases "fetch_attempt net w (k div 2) ?url B")
  from fa fetch_attempt_fields(1,2) [of net w "k div 2" ?url B]
  have w1: "net_calls w1 = Suc (net_calls w)" and r: "r = call_result net B (net_calls w - k) k"
    using Suc.prems(2) by (simp_all add: call_result_def)
  show ?case
  proof (cases r)
    case (Inr v')
    with fa Suc.prems(1) have "v' = v" by simp
    with Inr r have "call_result net B (net_calls w - k) (k + 0) = Inr v" by simp
    then show ?thesis by blast
  next
    case (Inl e)
    let ?w2 = "if int (k div 2) < int m - 1 then sleep w1 (1000 * (int (k div 2) + 1)) else w1"
    have n2: "net_calls ?w2 = Suc (net_calls w)" by (simp add: sleep_fields w1)
    have off: "net_calls ?w2 - Suc k = net_calls w - k" using Suc.prems(2) n2 by simp
    from fa Inl Suc.prems(1)
    have "snd (flat_pipeline net B m n (Suc k) ?w2 (Some e)) = Inr v" by simp
    moreover have "Suc k \<le> net_calls ?w2" using Suc.prems(2) n2 by simp
    ultimately obtain j where "j < n"
      "call_result net B (net_calls ?w2 - Suc k) (Suc k + j) = Inr v"
      using Suc.IH by blast
    then have "Suc j < Suc n" "call_result net B (net_calls w - k) (k + Suc j) = Inr v"
      by (simp_all add: off)
    then show ?thesis by blast
  qed
qed

lemma getCachedRates_origin:
  assumes "getCachedRates env w B allowStale = Some c"
  shows "\<exists>d. map_of (items w) (dataKeyOf B) = Some d \<and> JSON_parse env d = Some (c_rates c)"
  using assms
  by (auto simp: getCachedRates_def getItem_def Let_def split: option.splits if_splits)

lemma cacheRates_fields:
  "lastRequestTime (cacheRates env w B T) = lastRequestTime w"
  "clock (cacheRates env w B T) = clock w"
  by (simp_all add: cacheRates_def cleanOldCache_def Let_def split: sum.splits)

lemma on_error_result:
  "\<exists>r. on_error env w B startTime (Some err) =
        (w\<lparr>metrics := recordApiError (metrics w) (real_of_int (clock w - startTime))
             (message err)\<rparr>, Inr r) \<and>
     success r \<and> r_warning r = Some ''Last Refreshed Rate'' \<and>
     ((r_source r = ''error_fallback_cache'' \<and>
        (\<exists>d. map_of (items w) (dataKeyOf B) = Some d \<and> JSON_parse env d = Some (r_rates r)))
      \<or> (r_source r = ''error_fallback_hardcoded'' \<and> r_rates r = fallbackRates w))"
proof -
  let ?w1 = "w\<lparr>metrics := recordApiError (metrics w) (real_of_int (clock w - startTime))
      (message err)\<rparr>"
  show ?thesis
  proof (cases "getCachedRates env ?w1 B True")
    case None
    then show ?thesis by (simp add: on_error_def Let_def)
  next
    case (Some c)
    from getCachedRates_origin [OF this] Some show ?thesis
      by (simp add: on_error_def Let_def)
  qed
qed

lemma getExchangeRates_result:
  "\<exists>r. snd (getExchangeRates env net w B forceRefresh) = Inr r \<and> success r \<and>
     ((r_source r = ''api'' \<and> r_warning r = None \<and>
         (\<exists>i<6. \<exists>f. call_result net B (net_calls w) i = Inr f \<and> r_rates r = f_rates f) \<and>
         lastRequestTime (fst (getExchangeRates env net w B forceRefresh)) =
           clock (fst (getExchangeRates env net w B forceRefresh)))
      \<or> (r_source r = ''cache'' \<and> r_warning r = None \<and>
         (\<exists>d. map_of (items w) (dataKeyOf B) = Some d \<and> JSON_parse env d = Some (r_rates r)))
      \<or> (r_source r \<in> {''offline_cache'', ''error_fallback_cache''} \<and>
         r_warning r = Some ''Last Refreshed Rate'' \<and>
         (\<exists>d. map_of (items w) (dataKeyOf B) = Some d \<and> JSON_parse env d = Some (r_rates r)))
      \<or> (r_source r \<in> {''fallback'', ''error_fallback_hardcoded''} \<and>
         r_warning r = Some ''Last Refreshed Rate'' \<and> r_rates r = fallbackRates w))"
proof (cases "\<not> forceRefresh \<and> getCachedRates env w B False \<noteq> None")
  case True
  then obtain c where c: "getCachedRates env w B False = Some c" by auto
  from getCachedRates_origin [OF c] c True show ?thesis
    by (simp add: getExchangeRates_def Let_def)
next
  case False
  then have miss: "(if \<not> forceRefresh then getCachedRates env w B False else None) = None"
    by auto
  show ?thesis
  proof (cases "isOnline w")
    case False
    show ?thesis
    proof (cases "getCachedRates env w B True")
      case None
      with miss \<open>\<not> isOnline w\<close> show ?thesis
        by (simp add: getExchangeRates_def Let_def)
    next
      case (Some c)
      from getCachedRates_origin [OF this] Some miss \<open>\<not> isOnline w\<close> show ?thesis
        by (simp add: getExchangeRates_def Let_def)
    qed
  next
    case True
    let ?w0 = "rate_limit w"
    have nc: "net_calls ?w0 = net_calls w" and it: "items ?w0 = items w"
      and fb: "fallbackRates ?w0 = fallbackRates w"
      by (simp_all add: rate_limit_def sleep_def Let_def)
    obtain w2 res where fw: "fetchWithRetry net ?w0 B 3 = (w2, res)"
      by (cases "fetchWithRetry net ?w0 B 3")
    then have flat: "flat_pipeline net B 3 6 0 ?w0 None = (w2, res)"
      by (simp add: fetchWithRetry_flat)
    have it2: "items w2 = items w"
      using flat_pipeline_items [of net B 3 6 0 ?w0 None] flat it by simp
    have fb2: "fallbackRates w2 = fallbackRates w"
    proof -
      have "fallbackRates (fst (flat_pipeline net B m n k w' le)) = fallbackRates w'"
        for m n k w' le
        by (induction n arbitrary: k w' le)
          (simp_all add: fetch_attempt_def sleep_def case_prod_beta split: sum.splits)
      from this [of 3 6 0 ?w0 None] flat fb show ?thesis by simp
    qed
    show ?thesis
    proof (cases res)
      case (Inr result)
      from flat Inr have "snd (flat_pipeline net B 3 6 0 ?w0 None) = Inr result" by simp
      from flat_pipeline_origin [OF this] nc
      have "\<exists>i<6. call_result net B (net_calls w) i = Inr result" by simp
      with miss True fw Inr show ?thesis
        by (auto simp: getExchangeRates_def Let_def cacheRates_fields)
    next
      case (Inl thrown)
      with fw fetchWithRetry_thrown [of net ?w0 B thrown]
      obtain err where err: "thrown = Some err" by auto
      from on_error_result [of env w2 B "clock w" err] obtain r where
        r: "on_error env w2 B (clock w) (Some err) =
            (w2\<lparr>metrics := recordApiError (metrics w2) (real_of_int (clock w2 - clock w))
               (message err)\<rparr>, Inr r)"
          "success r" "r_warning r = Some ''Last Refreshed Rate''"
          "(r_source r = ''error_fallback_cache'' \<and>
            (\<exists>d. map_of (items w2) (dataKeyOf B) = Some d \<and>
                 JSON_parse env d = Some (r_rates r)))
           \<or> (r_source r = ''error_fallback_hardcoded'' \<and> r_rates r = fallbackRates w2)"
        by blast
      have "snd (getExchangeRates env net w B forceRefresh) = Inr r"
        using miss True fw Inl err r(1) by (simp add: getExchangeRates_def Let_def)
      with r(2,3,4) it2 fb2 show ?thesis by auto
    qed
  qed
qed

text \<open>
  Claim C1. Whatever the base currency, the platform (storage accesses and
  \<open>JSON.parse\<close> may throw at will), the network (every call may fail, in any way, once
  it settles) and the state of the service, \<open>getExchangeRates\<close> returns a result and no
  error reaches its caller. The result carries \<open>success\<close>, a source that is one of the
  six tags, and a rate table that is what the tag says: for \<open>api\<close> the rates of a
  response among the six calls of the pipeline, for the three cache tags the parsed
  data stored for the base currency, for the two fallback tags the fallback table. A
  failure shows only as the warning string, which every tag but \<open>api\<close> and \<open>cache\<close>
  carries.
\<close>

theorem getExchangeRates_never_throws:
  "\<exists>r. snd (getExchangeRates env net w baseCurrency forceRefresh) = Inr r \<and> success r \<and>
     r_source r \<in> set source_tags \<and>
     ((r_source r = ''api'' \<and> r_warning r = None \<and>
         (\<exists>i<6. \<exists>f. call_result net baseCurrency (net_calls w) i = Inr f \<and>
            r_rates r = f_rates f))
      \<or> (r_source r = ''cache'' \<and> r_warning r = None \<and>
         (\<exists>d. map_of (items w) (dataKeyOf baseCurrency) = Some d \<and>
            JSON_parse env d = Some (r_rates r)))
      \<or> (r_source r \<in> {''offline_cache'', ''error_fallback_cache''} \<and>
         r_warning r = Some ''Last Refreshed Rate'' \<and>
         (\<exists>d. map_of (items w) (dataKeyOf baseCurrency) = Some d \<and>
            JSON_parse env d = Some (r_rates r)))
      \<or> (r_source r \<in> {''fallback'', ''error_fallback_hardcoded''} \<and>
         r_warning r = Some ''Last Refreshed Rate'' \<and> r_rates r = fallbackRates w))"
proof -
  from getExchangeRates_result [of env net w baseCurrency forceRefresh] obtain r where
    r: "snd (getExchangeRates env net w baseCurrency forceRefresh) = Inr r" "success r"
    and cases: "(r_source r = ''api'' \<and> r_warning r = None \<and>
         (\<exists>i<6. \<exists>f. call_result net baseCurrency (net_calls w) i = Inr f \<and>
            r_rates r = f_rates f))
      \<or> (r_source r = ''cache'' \<and> r_warning r = None \<and>
         (\<exists>d. map_of (items w) (dataKeyOf baseCurrency) = Some d \<and>
            JSON_parse env d = Some (r_rates r)))
      \<or> (r_source r \<in> {''offline_cache'', ''error_fallback_cache''} \<and>
         r_warning r = Some ''Last Refreshed Rate'' \<and>
         (\<exists>d. map_of (items w) (dataKeyOf baseCurrency) = Some d \<and>
            JSON_parse env d = Some (r_rates r)))
      \<or> (r_source r \<in> {''fallback'', ''error_fallback_hardcoded''} \<and>
         r_warning r = Some ''Last Refreshed Rate'' \<and> r_rates r = fallbackRates w)"
    by blast
  from cases have "r_source r \<in> set source_tags"
    by (auto simp: source_tags_def)
  with r cases show ?thesis by blast
qed

lemma getCachedRates_stale_iff:
  assumes "ls_throws env (GetItem (dataKeyOf B)) = None"
    and "ls_throws env (GetItem (timestampKeyOf B)) = None"
  shows "getCachedRates env w B True \<noteq> None \<longleftrightarrow> entry_exists env (items w) B"
  using assms
  by (auto simp: getCachedRates_def getItem_def entry_exists_def Let_def split: option.splits)

lemma on_error_source:
  assumes "ls_throws env (GetItem (dataKeyOf B)) = None"
    and "ls_throws env (GetItem (timestampKeyOf B)) = None"
  shows "\<exists>r. snd (on_error env w B startTime (Some err)) = Inr r \<and>
     r_source r = (if entry_exists env (items w) B then ''error_fallback_cache''
                   else ''error_fallback_hardcoded'')"
proof -
  let ?w1 = "w\<lparr>metrics := recordApiError (metrics w) (real_of_int (clock w - startTime))
      (message err)\<rparr>"
  from getCachedRates_stale_iff [OF assms, of ?w1]
  have "getCachedRates env ?w1 B True \<noteq> None \<longleftrightarrow> entry_exists env (items w) B" by simp
  then show ?thesis
    by (auto simp: on_error_def Let_def split: option.splits)
qed

text \<open>
  Claim C2. The \<open>source\<close> of every result of \<open>getExchangeRates\<close> is one of the six
  strings of the program, which stand for the six provenance tags of the specification
  (\<open>api\<close> for network, \<open>fallback\<close> for static_fallback, \<open>error_fallback_cache\<close> for
  error_cache_fallback, \<open>error_fallback_hardcoded\<close> for error_static_fallback). When the
  service is online, the cache gives no fresh hit or a refresh is forced, and every
  network call fails, the tag is error_cache_fallback if an entry for the base currency
  exists in the storage, whatever its age, and error_static_fallback otherwise (the two
  keys of the base currency being readable).
\<close>

theorem provenance_tags:
  "(\<exists>r p. snd (getExchangeRates env net w B forceRefresh) = Inr r \<and>
        provenance_of (r_source r) = Some p)
   \<and> (isOnline w \<and> (forceRefresh \<or> getCachedRates env w B False = None) \<and>
      (\<forall>i. isl (call_result net B (net_calls w) i)) \<and>
      ls_throws env (GetItem (dataKeyOf B)) = None \<and>
      ls_throws env (GetItem (timestampKeyOf B)) = None \<longrightarrow>
      (\<exists>r. snd (getExchangeRates env net w B forceRefresh) = Inr r \<and>
         provenance_of (r_source r) =
           Some (if entry_exists env (items w) B then Error_cache_fallback
                 else Error_static_fallback)))"
proof (intro conjI impI)
  from getExchangeRates_returns [of env net w B forceRefresh] obtain r where
    r: "snd (getExchangeRates env net w B forceRefresh) = Inr r" "r_source r \<in> set source_tags"
    by blast
  from r(2) have "provenance_of (r_source r) \<noteq> None"
    by (auto simp: source_tags_def provenance_of_def)
  with r(1) show "\<exists>r p. snd (getExchangeRates env net w B forceRefresh) = Inr r \<and>
        provenance_of (r_source r) = Some p"
    by auto
next
  assume H: "isOnline w \<and> (forceRefresh \<or> getCachedRates env w B False = None) \<and>
      (\<forall>i. isl (call_result net B (net_calls w) i)) \<and>
      ls_throws env (GetItem (dataKeyOf B)) = None \<and>
      ls_throws env (GetItem (timestampKeyOf B)) = None"
  let ?w0 = "rate_limit w"
  obtain w2 res where fw: "fetchWithRetry net ?w0 B 3 = (w2, res)"
    by (cases "fetchWithRetry net ?w0 B 3")
  have nc: "net_calls ?w0 = net_calls w"
    by (simp add: rate_limit_def sleep_def Let_def)
  from H have "\<forall>i<2 * 3. isl (call_result net B (net_calls ?w0 - 0) (0 + i))"
    by (simp add: nc)
  from flat_pipeline_exhausted [OF this, of 3 None] fw
  obtain err where res: "res = Inl (Some err)"
    by (simp add: fetchWithRetry_flat)
  from fw have "items w2 = items w"
    using flat_pipeline_items [of net B 3 "2 * 3" 0 ?w0 None]
    by (simp add: fetchWithRetry_flat rate_limit_fields)
  with on_error_source [of env B w2 "clock w" err] H obtain r where
    r: "snd (on_error env w2 B (clock w) (Some err)) = Inr r"
      "r_source r = (if entry_exists env (items w) B then ''error_fallback_cache''
                   else ''error_fallback_hardcoded'')"
    by auto
  have "snd (getExchangeRates env net w B forceRefresh) = Inr r"
    using H fw res r(1) by (auto simp: getExchangeRates_def Let_def)
  with r(2) show "\<exists>r. snd (getExchangeRates env net w B forceRefresh) = Inr r \<and>
         provenance_of (r_source r) =
           Some (if entry_exists env (items w) B then Error_cache_fallback
                 else Error_static_fallback)"
    by (auto simp: provenance_of_def)
qed

text \<open>
  With every call refused, USD (which has an old entry) comes from the cache and EUR
  (which has none) from the fallback table.
\<close>

theorem provenance_tags_witness:
  "(\<exists>r. snd (getExchangeRates example_env failing_net example_world ''USD'' True) = Inr r \<and>
        provenance_of (r_source r) = Some Error_cache_fallback)
   \<and> (\<exists>r. snd (getExchangeRates example_env failing_net example_world ''EUR'' True) = Inr r \<and>
        provenance_of (r_source r) = Some Error_static_fallback)"
proof -
  have H: "isOnline example_world \<and>
      (True \<or> getCachedRates example_env example_world B False = None) \<and>
      (\<forall>i. isl (call_result failing_net B (net_calls example_world) i)) \<and>
      ls_throws example_env (GetItem (dataKeyOf B)) = None \<and>
      ls_throws example_env (GetItem (timestampKeyOf B)) = None" for B
    by (simp add: example_world_def example_env_def call_result_def failing_net_def
        read_response_def)
  have usd: "entry_exists example_env (items example_world) ''USD''"
    by (simp add: entry_exists_def example_env_def example_world_def dataKeyOf_def
        timestampKeyOf_def cacheKey_def cacheTimestampKey_def)
  have eur: "\<not> entry_exists example_env (items example_world) ''EUR''"
    by (simp add: entry_exists_def example_env_def example_world_def dataKeyOf_def
        timestampKeyOf_def cacheKey_def cacheTimestampKey_def)
  from provenance_tags [of example_env failing_net example_world "''USD''" True] H [of "''USD''"] usd
  have 1: "\<exists>r. snd (getExchangeRates example_env failing_net example_world ''USD'' True) = Inr r \<and>
        provenance_of (r_source r) = Some Error_cache_fallback"
    by simp
  from provenance_tags [of example_env failing_net example_world "''EUR''" True] H [of "''EUR''"] eur
  have 2: "\<exists>r. snd (getExchangeRates example_env failing_net example_world ''EUR'' True) = Inr r \<and>
        provenance_of (r_source r) = Some Error_static_fallback"
    by simp
  from 1 2 show ?thesis by (rule conjI)
qed

lemma on_error_trace: "trace (fst (on_error env w B startTime thrown)) = trace w"
  by (simp add: on_error_def Let_def split: option.splits)

lemma getExchangeRates_trace:
  "\<exists>evs. trace (fst (getExchangeRates env net w B forceRefresh)) = trace w @ evs \<and>
     (\<forall>(a, t) \<in> set (fetch_starts evs). lastRequestTime w + minRequestInterval \<le> t) \<and>
     backoff_spaced 3 (fetch_starts evs)"
proof -
  let ?w0 = "rate_limit w"
  obtain w2 res where fw: "fetchWithRetry net ?w0 B 3 = (w2, res)"
    by (cases "fetchWithRetry net ?w0 B 3")
  from rate_limit_fields(3) [of w] obtain evs0 where
    evs0: "trace ?w0 = trace w @ evs0" "fetch_starts evs0 = []" by blast
  from flat_pipeline_trace [of net B 3 "2 * 3" 0 ?w0 None] fw obtain evs where
    evs: "trace w2 = trace ?w0 @ evs" "\<forall>(a, t) \<in> set (fetch_starts evs). clock ?w0 \<le> t"
      "backoff_spaced 3 (fetch_starts evs)"
    by (auto simp: fetchWithRetry_flat)
  have net_path: "trace w2 = trace w @ (evs0 @ evs)"
    "\<forall>(a, t) \<in> set (fetch_starts (evs0 @ evs)). lastRequestTime w + minRequestInterval \<le> t"
    "backoff_spaced 3 (fetch_starts (evs0 @ evs))"
    using evs evs0 rate_limit_fields(2) [of w]
    by (auto simp: fetch_starts_append)
  have "trace (fst (getExchangeRates env net w B forceRefresh)) = trace w \<or>
        trace (fst (getExchangeRates env net w B forceRefresh)) = trace w2"
    using fw
    by (auto simp: getExchangeRates_def Let_def cacheRates_trace on_error_trace
        split: option.splits sum.splits)
  then show ?thesis
  proof
    assume "trace (fst (getExchangeRates env net w B forceRefresh)) = trace w"
    then show ?thesis by (intro exI [of _ "[]"]) simp
  next
    assume "trace (fst (getExchangeRates env net w B forceRefresh)) = trace w2"
    with net_path show ?thesis by (intro exI [of _ "evs0 @ evs"]) simp
  qed
qed

lemma getExchangeRates_gate:
  "(\<forall>(a, t) \<in> set (fetch_starts
        (new_events w (fst (getExchangeRates env net w B forceRefresh)))).
      lastRequestTime w + minRequestInterval \<le> t)
   \<and> backoff_spaced 3 (fetch_starts
        (new_events w (fst (getExchangeRates env net w B forceRefresh))))"
proof -
  from getExchangeRates_trace [of env net w B forceRefresh] obtain evs where
    evs: "trace (fst (getExchangeRates env net w B forceRefresh)) = trace w @ evs"
      "\<forall>(a, t) \<in> set (fetch_starts evs). lastRequestTime w + minRequestInterval \<le> t"
      "backoff_spaced 3 (fetch_starts evs)"
    by blast
  from evs(1) have "new_events w (fst (getExchangeRates env net w B forceRefresh)) = evs"
    by (simp add: new_events_def)
  with evs(2,3) show ?thesis by simp
qed

lemma api_writes_lastRequestTime:
  assumes "snd (getExchangeRates env net w B forceRefresh) = Inr r" and "r_source r = ''api''"
  shows "lastRequestTime (fst (getExchangeRates env net w B forceRefresh)) =
           clock (fst (getExchangeRates env net w B forceRefresh))"
proof -
  from getExchangeRates_result [of env net w B forceRefresh] assms(1) have
    "(r_source r = ''api'' \<and>
         lastRequestTime (fst (getExchangeRates env net w B forceRefresh)) =
           clock (fst (getExchangeRates env net w B forceRefresh)))
      \<or> r_source r = ''cache''
      \<or> r_source r \<in> {''offline_cache'', ''error_fallback_cache''}
      \<or> r_source r \<in> {''fallback'', ''error_fallback_hardcoded''}"
    by auto
  with assms(2) show ?thesis by auto
qed

text \<open>
  Claim C4, as the code has it. The rate limiting check runs once in a call of
  \<open>getExchangeRates\<close>, before the pipeline, and the pipeline acquires nothing. Every
  network call of an invocation starts at least \<open>minRequestInterval\<close> (1 s) after the
  \<open>lastRequestTime\<close> it finds, and inside the pipeline the call that follows a failed
  call of round 0 or 1 starts at least \<open>1000 * (round + 1)\<close> ms after that call started,
  by the backoff sleep. An invocation that returns rates from the network writes the
  time it ends into \<open>lastRequestTime\<close>, so every network call of an invocation that finds
  this value starts at least 1 s after that invocation ended.
\<close>

theorem rate_limit_gate:
  "(\<forall>(a, t) \<in> set (fetch_starts
        (new_events w (fst (getExchangeRates env net (w :: 'r world) baseCurrency forceRefresh)))).
      lastRequestTime w + minRequestInterval \<le> t)
   \<and> backoff_spaced 3 (fetch_starts
        (new_events w (fst (getExchangeRates env net w baseCurrency forceRefresh))))
   \<and> (\<forall>r. snd (getExchangeRates env net w baseCurrency forceRefresh) = Inr r \<and>
          r_source r = ''api'' \<longrightarrow>
          lastRequestTime (fst (getExchangeRates env net w baseCurrency forceRefresh)) =
            clock (fst (getExchangeRates env net w baseCurrency forceRefresh)) \<and>
          (\<forall>env2 net2 (w2 :: 'r world) base2 force2.
             lastRequestTime w2 =
               lastRequestTime (fst (getExchangeRates env net w baseCurrency forceRefresh)) \<longrightarrow>
             (\<forall>(a, t) \<in> set (fetch_starts
                  (new_events w2 (fst (getExchangeRates env2 net2 w2 base2 force2)))).
                clock (fst (getExchangeRates env net w baseCurrency forceRefresh)) +
                  minRequestInterval \<le> t)))"
proof -
  let ?w1 = "fst (getExchangeRates env net w baseCurrency forceRefresh)"
  note g = getExchangeRates_gate [of w env net baseCurrency forceRefresh]
  show ?thesis
  proof (intro conjI allI impI)
    from g show "\<forall>(a, t) \<in> set (fetch_starts (new_events w ?w1)).
        lastRequestTime w + minRequestInterval \<le> t"
      by (rule conjunct1)
  next
    from g show "backoff_spaced 3 (fetch_starts (new_events w ?w1))"
      by (rule conjunct2)
  next
    fix r
    assume "snd (getExchangeRates env net w baseCurrency forceRefresh) = Inr r \<and>
          r_source r = ''api''"
    then show "lastRequestTime ?w1 = clock ?w1"
      using api_writes_lastRequestTime [of env net w baseCurrency forceRefresh r] by simp
  next
    fix r env2 net2 and w2 :: "'r world" and base2 force2
    assume H: "snd (getExchangeRates env net w baseCurrency forceRefresh) = Inr r \<and>
          r_source r = ''api''"
      and L: "lastRequestTime w2 = lastRequestTime ?w1"
    from H have "lastRequestTime ?w1 = clock ?w1"
      using api_writes_lastRequestTime [of env net w baseCurrency forceRefresh r] by simp
    with L getExchangeRates_gate [of w2 env2 net2 base2 force2, THEN conjunct1]
    show "\<forall>(a, t) \<in> set (fetch_starts
                  (new_events w2 (fst (getExchangeRates env2 net2 w2 base2 force2)))).
                clock ?w1 + minRequestInterval \<le> t"
      by simp
  qed
qed

text \<open>
  A refresh that the network answers ends at 11 min 41.125 s and writes that time; a
  refresh that follows at once waits a second before its first call, and its calls
  after the failures of rounds 0 and 1 come at least 1 s and 2 s later.
\<close>

theorem rate_limit_gate_witness:
  "lastRequestTime after_success = 701125
   \<and> clock after_success = 701125
   \<and> fetch_starts (new_events after_success
       (fst (getExchangeRates example_env failing_net after_success ''EUR'' True))) =
     [(0, 702125), (0, 703130), (1, 704135), (1, 706140), (2, 708145), (2, 708150)]
   \<and> backoff_spaced 3 (fetch_starts (new_events after_success
       (fst (getExchangeRates example_env failing_net after_success ''EUR'' True))))"
proof -
  have api: "snd (getExchangeRates example_env flaky_net example_world ''USD'' True) =
      Inr \<lparr>success = True, r_rates = ''{EUR:0.9}'',
           r_timestamp = ''1970-01-01T00:11:41.125Z'', r_source = ''api'', r_warning = None\<rparr>
    \<and> r_source \<lparr>success = True, r_rates = ''{EUR:0.9}'',
           r_timestamp = ''1970-01-01T00:11:41.125Z'', r_source = ''api'', r_warning = None\<rparr>
        = ''api''"
    by code_simp
  from rate_limit_gate [of example_world example_env flaky_net "''USD''" True,
      THEN conjunct2, THEN conjunct2, THEN spec, THEN mp, OF api, THEN conjunct1]
  have written: "lastRequestTime after_success = clock after_success"
    by (simp add: after_success_def)
  have now: "clock after_success = 701125"
    by code_simp
  have spaced: "backoff_spaced 3 (fetch_starts (new_events after_success
       (fst (getExchangeRates example_env failing_net after_success ''EUR'' True))))"
    using rate_limit_gate [of after_success example_env failing_net "''EUR''" True]
    by blast
  have starts: "fetch_starts (new_events after_success
       (fst (getExchangeRates example_env failing_net after_success ''EUR'' True))) =
     [(0, 702125), (0, 703130), (1, 704135), (1, 706140), (2, 708145), (2, 708150)]"
    by code_simp
  from written now starts spaced show ?thesis by simp
qed

text \<open>
  Claim C4 as stated fails: with every call refused after 5 ms, the two network calls of
  the last round start 5 ms apart; nothing acquires the limiter between them.
\<close>

theorem within_round_spacing_counterexample:
  "fetch_starts (new_events example_world
       (fst (getExchangeRates example_env failing_net example_world ''USD'' True))) =
     [(0, 700000), (0, 701005), (1, 702010), (1, 704015), (2, 706020), (2, 706025)]
   \<and> \<not> spaced 1000 (fetch_starts (new_events example_world
       (fst (getExchangeRates example_env failing_net example_world ''USD'' True))))"
  by code_simp

text \<open>
  Outside the statement above: a refresh that fails leaves \<open>lastRequestTime\<close> as it
  was, so a refresh that follows it at once starts its first call 5 ms after the last
  call of the failed one.
\<close>

lemma refresh_after_failure:
  "lastRequestTime (fst (getExchangeRates example_env failing_net example_world ''USD'' True)) =
     lastRequestTime example_world
   \<and> fetch_starts (new_events example_world
       (fst (getExchangeRates example_env failing_net example_world ''USD'' True))) =
     [(0, 700000), (0, 701005), (1, 702010), (1, 704015), (2, 706020), (2, 706025)]
   \<and> fetch_starts (new_events
       (fst (getExchangeRates example_env failing_net example_world ''USD'' True))
       (fst (getExchangeRates example_env failing_net
          (fst (getExchangeRates example_env failing_net example_world ''USD'' True))
          ''USD'' True))) =
     [(0, 706030), (0, 707035), (1, 708040), (1, 710045), (2, 712050), (2, 712055)]"
  by code_simp

section \<open>Properties of setState\<close>

lemma foldl_subscribe_fields:
  "subscribers (foldl subscribe c cbs) = subscribers c"
  "next_array (foldl subscribe c cbs) = next_array c"
  "state (foldl subscribe c cbs) = state c"
  "calls (foldl subscribe c cbs) = calls c"
  by (induction cbs arbitrary: c) (simp_all add: subscribe_def)

lemma foldl_subscribe_arrays:
  "arrays (foldl subscribe c cbs) (subscribers c) = arrays c (subscribers c) @ cbs"
proof (induction cbs arbitrary: c)
  case Nil
  show ?case by simp
next
  case (Cons cb cbs)
  from Cons.IH [of "subscribe c cb"] show ?case
    by (simp add: subscribe_def)
qed

lemmas foldl_subscribe = foldl_subscribe_fields foldl_subscribe_arrays

lemma run_actions_quiet:
  assumes "list_all quiet acts" and "a < next_array c"
  shows "snd (run_actions depth behaviour c acts) = None
       \<and> (\<exists>ext. arrays (fst (run_actions depth behaviour c acts)) a = arrays c a @ ext)
       \<and> a < next_array (fst (run_actions depth behaviour c acts))
       \<and> state (fst (run_actions depth behaviour c acts)) = state c
       \<and> calls (fst (run_actions depth behaviour c acts)) = calls c"
  using assms
proof (induction acts arbitrary: c)
  case Nil
  then show ?case by simp
next
  case (Cons act acts)
  from Cons.prems(1) have q: "quiet act" and qs: "list_all quiet acts" by simp_all
  show ?case
  proof (cases act)
    case (Subscribe cb)
    have "a < next_array (subscribe c cb)" using Cons.prems(2) by (simp add: subscribe_def)
    from Cons.IH [OF qs this] Subscribe show ?thesis
      by (auto simp: subscribe_def)
  next
    case (Unsubscribe cb)
    have "a < next_array (unsubscribe c cb)" using Cons.prems(2) by (simp add: unsubscribe_def)
    from Cons.IH [OF qs this] Unsubscribe Cons.prems(2) show ?thesis
      by (auto simp: unsubscribe_def)
  next
    case (SetState p)
    with q show ?thesis by simp
  next
    case (Throw e)
    with q show ?thesis by simp
  qed
qed

lemma notify_calls:
  assumes quiet: "\<forall>callback st. list_all quiet (behaviour callback st)"
    and "a < next_array c" and "k + n \<le> length (arrays c a)"
  shows "snd (notify depth behaviour a k n c) = None
       \<and> calls (fst (notify depth behaviour a k n c)) =
           calls c @ map (\<lambda>callback. (callback, state c)) (take n (drop k (arrays c a)))
       \<and> state (fst (notify depth behaviour a k n c)) = state c"
  using assms(2,3)
proof (induction n arbitrary: k c)
  case 0
  show ?case by simp
next
  case (Suc n)
  let ?arr = "arrays c a"
  let ?cb = "?arr ! k"
  let ?c1 = "c\<lparr>calls := calls c @ [(?cb, state c)]\<rparr>"
  from Suc.prems have k: "k < length ?arr" by simp
  have "a < next_array ?c1" using Suc.prems(1) by simp
  from run_actions_quiet [OF quiet [rule_format, of ?cb "state c"] this, of depth behaviour]
  obtain c2 ext where
    run: "run_actions depth behaviour ?c1 (behaviour ?cb (state c)) = (c2, None)"
    and c2: "arrays c2 a = ?arr @ ext" "a < next_array c2"
      "state c2 = state c" "calls c2 = calls c @ [(?cb, state c)]"
    by (cases "run_actions depth behaviour ?c1 (behaviour ?cb (state c))") auto
  have len: "Suc k + n \<le> length (arrays c2 a)" using Suc.prems(2) c2(1) by simp
  note IH = Suc.IH [OF c2(2) len]
  have tk: "take n (drop (Suc k) (?arr @ ext)) = take n (drop (Suc k) ?arr)"
    using Suc.prems(2) by simp
  have hd: "take (Suc n) (drop k ?arr) = ?cb # take n (drop (Suc k) ?arr)"
    using k by (simp add: Cons_nth_drop_Suc [symmetric])
  have step: "notify depth behaviour a k (Suc n) c = notify depth behaviour a (Suc k) n c2"
    using k run by (simp add: Let_def)
  show ?case
    unfolding step hd using IH c2 tk by simp
qed

text \<open>
  Claim C8, as the code has it. When every callback returns normally and does not call
  \<open>setState\<close> before it returns, \<open>setState\<close> merges the update into the state and
  calls every callback that was subscribed when it was invoked, once for each time it
  was subscribed, in the order of the calls of \<open>subscribe\<close>, each with the merged
  state, and then returns. What the callbacks do in the round (subscribe new callbacks,
  unsubscribe themselves or others) changes nothing of this: an unsubscribe function
  replaces the array of the converter and leaves alone the array that \<open>forEach\<close>
  walks, and a callback subscribed in the round lies beyond the length \<open>forEach\<close>
  fixed at its start. The converter is one whose subscribers' array is at an allocated
  address, below \<open>next_array\<close>, after any further calls of \<open>subscribe\<close>.
\<close>

theorem setState_notifies:
  assumes "subscribers c < next_array c"
    and "\<forall>callback st. list_all quiet (behaviour callback st)"
  shows "snd (setState (Suc depth) behaviour (foldl subscribe c callbacks) newState) = None
       \<and> calls (fst (setState (Suc depth) behaviour (foldl subscribe c callbacks) newState)) =
           calls c @ map (\<lambda>callback. (callback, merge_state (state c) newState))
                       (arrays c (subscribers c) @ callbacks)
       \<and> state (fst (setState (Suc depth) behaviour (foldl subscribe c callbacks) newState)) =
           merge_state (state c) newState"
proof -
  let ?c0 = "foldl subscribe c callbacks"
  let ?c1 = "?c0\<lparr>state := merge_state (state ?c0) newState\<rparr>"
  have a: "subscribers ?c1 < next_array ?c1"
    using assms(1) by (simp add: foldl_subscribe)
  have arr: "arrays ?c1 (subscribers ?c1) = arrays c (subscribers c) @ callbacks"
    by (simp add: foldl_subscribe)
  from notify_calls [OF assms(2) a, of 0 "length (arrays ?c1 (subscribers ?c1))" depth]
  show ?thesis
    by (simp add: Let_def arr foldl_subscribe)
qed

text \<open>
  Callback 1 unsubscribes callback 2 and itself when called: callbacks 1, 2 and 3,
  subscribed in this order, are all called in this round, and only callback 3 is left
  for the next.
\<close>

theorem setState_notifies_witness:
  "snd (setState 10 example_behaviour (foldl subscribe empty_converter [1, 2, 3]) set_loading) = None
   \<and> calls (fst (setState 10 example_behaviour (foldl subscribe empty_converter [1, 2, 3])
        set_loading)) =
     [(1, example_state\<lparr>loading := True\<rparr>), (2, example_state\<lparr>loading := True\<rparr>),
      (3, example_state\<lparr>loading := True\<rparr>)]
   \<and> state (fst (setState 10 example_behaviour (foldl subscribe empty_converter [1, 2, 3])
        set_loading)) = example_state\<lparr>loading := True\<rparr>
   \<and> arrays (fst (setState 10 example_behaviour (foldl subscribe empty_converter [1, 2, 3])
        set_loading))
       (subscribers (fst (setState 10 example_behaviour
          (foldl subscribe empty_converter [1, 2, 3]) set_loading))) = [3]"
proof -
  have wf: "subscribers empty_converter < next_array empty_converter"
    by (simp add: empty_converter_def)
  have q: "\<forall>callback st. list_all quiet (example_behaviour callback st)"
    by (simp add: example_behaviour_def)
  have ten: "(10::nat) = Suc 9" by simp
  from setState_notifies [OF wf q, of 9 "[1, 2, 3]" set_loading]
  have round: "snd (setState 10 example_behaviour (foldl subscribe empty_converter [1, 2, 3])
        set_loading) = None
   \<and> calls (fst (setState 10 example_behaviour (foldl subscribe empty_converter [1, 2, 3])
        set_loading)) =
     [(1, example_state\<lparr>loading := True\<rparr>), (2, example_state\<lparr>loading := True\<rparr>),
      (3, example_state\<lparr>loading := True\<rparr>)]
   \<and> state (fst (setState 10 example_behaviour (foldl subscribe empty_converter [1, 2, 3])
        set_loading)) = example_state\<lparr>loading := True\<rparr>"
    unfolding ten
    by (simp add: empty_converter_def merge_state_def set_loading_def example_state_def)
  have after: "arrays (fst (setState 10 example_behaviour (foldl subscribe empty_converter [1, 2, 3])
        set_loading))
       (subscribers (fst (setState 10 example_behaviour
          (foldl subscribe empty_converter [1, 2, 3]) set_loading))) = [3]"
    by code_simp
  from round after show ?thesis by simp
qed

text \<open>
  Claim C8 as stated fails. With callbacks 1, 2 and 3 subscribed, a callback 1 that
  throws ends the round: callbacks 2 and 3 are not called and the exception leaves
  \<open>setState\<close>. And a callback 1 that calls \<open>setState\<close> to end the loading makes an
  inner round, after which callbacks 2 and 3 are called a second time, with the state
  of the inner update and not with the state merged by the outer one.
\<close>

theorem callback_throws_counterexample:
  "snd (setState 10 throwing_behaviour example_converter set_loading) =
     Some (Error ''element is null'')
   \<and> calls (fst (setState 10 throwing_behaviour example_converter set_loading)) =
       [(1, example_state\<lparr>loading := True\<rparr>)]
   \<and> arrays example_converter (subscribers example_converter) = [1, 2, 3]
   \<and> calls (fst (setState 10 reentrant_behaviour example_converter set_loading)) =
       [(1, example_state\<lparr>loading := True\<rparr>),
        (1, example_state\<lparr>loading := False\<rparr>),
        (2, example_state\<lparr>loading := False\<rparr>),
        (3, example_state\<lparr>loading := False\<rparr>),
        (2, example_state\<lparr>loading := False\<rparr>),
        (3, example_state\<lparr>loading := False\<rparr>)]
   \<and> merge_state (state example_converter) set_loading = example_state\<lparr>loading := True\<rparr>"
  by code_simp

end
